theory Spec2Isabelle
  imports Main "HOL-Library.Word"
begin

section \<open>The bridge relayer of script.py\<close>

text \<open>
  A shallow embedding of the cross-chain bridge event listener. The two ledger nodes, the
  process environment and the signals a process can receive are the outside world: every
  call the script makes on them is a function of a world record, returning either a
  value or the exception the call raises. The mutable attributes of the two objects
  (\<open>BridgeEventHandler.processed_transactions\<close>, \<open>BridgeEventListener.last_processed_block\<close>)
  and what the process has written to the logger and asked of the nodes are one record
  that every operation takes and returns.
\<close>

subsection \<open>Exceptions\<close>

text \<open>
  The exception classes the script distinguishes: the builtin \<open>ConnectionError\<close> raised
  by \<open>ChainConnector.__init__\<close>, \<open>requests.exceptions.ConnectionError\<close>, \<open>ValueError\<close>
  (with its subclasses), any other subclass of \<open>Exception\<close>, and the two
  \<open>BaseException\<close>s that no \<open>except Exception\<close> clause catches: the signals by which a
  process is shut down from outside.
\<close>

datatype exn =
    ConnectionError string
  | RequestsConnectionError string
  | ValueError string
  | OtherException string
  | KeyboardInterrupt
  | SystemExit

fun is_Exception :: "exn \<Rightarrow> bool" where
  "is_Exception KeyboardInterrupt = False"
| "is_Exception SystemExit = False"
| "is_Exception _ = True"

fun is_ValueError :: "exn \<Rightarrow> bool" where
  "is_ValueError (ValueError _) = True"
| "is_ValueError _ = False"

fun is_RequestsConnectionError :: "exn \<Rightarrow> bool" where
  "is_RequestsConnectionError (RequestsConnectionError _) = True"
| "is_RequestsConnectionError _ = False"

subsection \<open>Data\<close>

type_synonym bytes = "8 word list"

text \<open>
  \<open>bytes.hex()\<close>: two lower-case hexadecimal digits per byte. web3 decodes a \<open>bytes32\<close>
  event argument to \<open>bytes\<close>. The hash of a signed transaction is a \<open>HexBytes\<close>, whose
  \<open>hex()\<close> puts \<open>0x\<close> in front (in the hexbytes release that web3 v6, whose API the
  script calls, depends on).
\<close>

definition hex_digit :: "nat \<Rightarrow> char" where
  "hex_digit n = ''0123456789abcdef'' ! (n mod 16)"

definition hex_byte :: "8 word \<Rightarrow> string" where
  "hex_byte b = [hex_digit (unat b div 16), hex_digit (unat b mod 16)]"

definition hex :: "bytes \<Rightarrow> string" where
  "hex bs = concat (map hex_byte bs)"

definition HexBytes_hex :: "bytes \<Rightarrow> string" where
  "HexBytes_hex bs = ''0x'' @ hex bs"

text \<open>
  A decoded \<open>BridgeTransferInitiated\<close> log as web3 returns it: the arguments of
  \<open>SOURCE_BRIDGE_ABI\<close> under \<open>args\<close>, and the position of the log in the chain.
\<close>

record event_args =
  transactionId :: bytes
  sender :: string
  destinationChainId :: int
  token :: string
  amount :: int

record event =
  args :: event_args
  blockNumber :: int
  logIndex :: int

record BridgeConfig =
  source_chain_rpc :: string
  destination_chain_rpc :: string
  source_bridge_address :: string
  destination_bridge_address :: string
  listener_private_key :: string
  start_block :: int
  poll_interval_seconds :: int

text \<open>The one function of \<open>DESTINATION_BRIDGE_ABI\<close>, applied to its arguments.\<close>

datatype contract_call = releaseTokens bytes string string int

record tx_payload =
  tx_from :: string
  tx_nonce :: int
  tx_gas :: int
  tx_gasPrice :: int

type_synonym built_tx = string

record signed_tx =
  signed_hash :: bytes
  rawTransaction :: bytes

subsection \<open>The destination node\<close>

text \<open>
  What \<open>dest_connector.web3\<close> answers at the time of one dispatch. Each field is one
  call of \<open>_simulate_release_tokens\<close>; \<open>build_transaction\<close> is
  \<open>functions.releaseTokens(...).build_transaction(tx_payload)\<close>.
\<close>

record dest_node =
  from_key :: "string \<Rightarrow> exn + string"
  get_transaction_count :: "string \<Rightarrow> exn + int"
  gas_price :: "exn + int"
  build_transaction :: "contract_call \<Rightarrow> tx_payload \<Rightarrow> exn + built_tx"
  sign_transaction :: "built_tx \<Rightarrow> string \<Rightarrow> exn + signed_tx"

text \<open>
  The calls a process can make on the destination connector. \<open>SendRawTransaction\<close> is
  the broadcast \<open>web3.eth.send_raw_transaction\<close>.
\<close>

datatype dest_call =
    FromKey string
  | GetTransactionCount string
  | GasPrice
  | BuildTransaction contract_call tx_payload
  | SignTransaction built_tx string
  | SendRawTransaction bytes

fun is_broadcast :: "dest_call \<Rightarrow> bool" where
  "is_broadcast (SendRawTransaction _) = True"
| "is_broadcast _ = False"

subsection \<open>The logger\<close>

datatype level = INFO | WARNING | ERROR | CRITICAL

text \<open>One constructor per logging statement of the script, with the values it formats.\<close>

datatype message =
    ConnectFailed string
  | Connected int
  | AlreadyProcessed string
  | ProcessingNew string
  | SuccessfullyProcessed string
  | ErrorProcessing event exn
  | PreparingRelease int string string string
  | WouldHaveSent
  | SignedTx string
  | FailedBuildSign string exn
  | Starting string
  | InitialBlock int
  | Scanning int int
  | Found nat
  | NoNewEvents
  | RpcConnectionError exn int
  | UnexpectedError exn
  | ConfigurationError exn
  | CriticalInitialization exn

type_synonym log_entry = "level \<times> message"

subsection \<open>State\<close>

text \<open>
  \<open>processed_transactions\<close> is the handler's set, \<open>last_processed_block\<close> the listener's
  attribute. \<open>logged\<close>, \<open>dest_calls\<close> and \<open>src_queries\<close> are what the process has done to
  the world so far: the records written to the logger, the calls made on the destination
  connector, and the block ranges \<open>(fromBlock, toBlock)\<close> of the event filters created on
  the source connector.
\<close>

record relayer =
  processed_transactions :: "string set"
  last_processed_block :: int
  logged :: "log_entry list"
  dest_calls :: "dest_call list"
  src_queries :: "(int \<times> int) list"

definition logger :: "level \<Rightarrow> message \<Rightarrow> relayer \<Rightarrow> relayer" where
  "logger l m s = s\<lparr>logged := logged s @ [(l, m)]\<rparr>"

definition calls :: "dest_call \<Rightarrow> relayer \<Rightarrow> relayer" where
  "calls c s = s\<lparr>dest_calls := dest_calls s @ [c]\<rparr>"

subsection \<open>BridgeEventHandler\<close>

text \<open>
  The body of the \<open>try\<close> of \<open>_simulate_release_tokens\<close> up to the signature: the nonce,
  the gas price, the built transaction, the signed transaction, each of which may raise.
\<close>

definition build_and_sign ::
  "BridgeConfig \<Rightarrow> dest_node \<Rightarrow> event_args \<Rightarrow> string \<Rightarrow> relayer \<Rightarrow> (exn + signed_tx) \<times> relayer" where
  "build_and_sign cfg w a wallet_address s =
     (let s1 = calls (GetTransactionCount wallet_address) s in
      case get_transaction_count w wallet_address of
        Inl e \<Rightarrow> (Inl e, s1)
      | Inr nonce \<Rightarrow>
          (let s2 = calls GasPrice s1 in
           case gas_price w of
             Inl e \<Rightarrow> (Inl e, s2)
           | Inr gp \<Rightarrow>
               (let payload = \<lparr>tx_from = wallet_address, tx_nonce = nonce,
                                tx_gas = 200000, tx_gasPrice = gp\<rparr>;
                    call = releaseTokens (transactionId a) (sender a) (token a) (amount a);
                    s3 = calls (BuildTransaction call payload) s2 in
                case build_transaction w call payload of
                  Inl e \<Rightarrow> (Inl e, s3)
                | Inr release_tx \<Rightarrow>
                    (let s4 = calls (SignTransaction release_tx (listener_private_key cfg)) s3 in
                     case sign_transaction w release_tx (listener_private_key cfg) of
                       Inl e \<Rightarrow> (Inl e, s4)
                     | Inr stx \<Rightarrow> (Inr stx, s4)))))"

text \<open>
  \<open>_simulate_release_tokens\<close>. The account is derived outside the \<open>try\<close>; an
  \<open>Exception\<close> inside it is logged and raised again; the signed transaction is logged
  and not sent. The result is the exception that leaves the function, if any.
\<close>

definition simulate_release_tokens ::
  "BridgeConfig \<Rightarrow> dest_node \<Rightarrow> event \<Rightarrow> relayer \<Rightarrow> exn option \<times> relayer" where
  "simulate_release_tokens cfg w ev s =
     (let a = args ev;
          sender_address = sender a;
          tx_id = transactionId a;
          s0 = logger INFO (PreparingRelease (amount a) (token a) sender_address (hex tx_id)) s;
          s1 = calls (FromKey (listener_private_key cfg)) s0 in
      case from_key w (listener_private_key cfg) of
        Inl e \<Rightarrow> (Some e, s1)
      | Inr wallet_address \<Rightarrow>
          (case build_and_sign cfg w a wallet_address s1 of
             (Inr stx, s2) \<Rightarrow>
               (None, logger INFO (SignedTx (HexBytes_hex (signed_hash stx)))
                        (logger INFO WouldHaveSent s2))
           | (Inl e, s2) \<Rightarrow>
               if is_Exception e
               then (Some e, logger ERROR (FailedBuildSign (hex tx_id) e) s2)
               else (Some e, s2)))"

text \<open>
  \<open>process_event\<close>: the duplicate check, the release, the insertion into the set, and
  the \<open>except Exception\<close> that logs and swallows. Only a \<open>BaseException\<close> leaves it.
\<close>

definition process_event ::
  "BridgeConfig \<Rightarrow> dest_node \<Rightarrow> event \<Rightarrow> relayer \<Rightarrow> exn option \<times> relayer" where
  "process_event cfg w ev s =
     (let tx_id = hex (transactionId (args ev)) in
      if tx_id \<in> processed_transactions s
      then (None, logger WARNING (AlreadyProcessed tx_id) s)
      else
        (case simulate_release_tokens cfg w ev (logger INFO (ProcessingNew tx_id) s) of
           (None, s1) \<Rightarrow>
             (None, logger INFO (SuccessfullyProcessed tx_id)
                      (s1\<lparr>processed_transactions := insert tx_id (processed_transactions s1)\<rparr>))
         | (Some e, s1) \<Rightarrow>
             if is_Exception e
             then (None, logger ERROR (ErrorProcessing ev e) s1)
             else (Some e, s1)))"

text \<open>
  \<open>process_event\<close> returns \<open>None\<close> on every path. The outcome of a dispatch
  (\<open>Relayed\<close>, \<open>AlreadyRelayed\<close>, \<open>Failed\<close>) is what the call reports: the last record it
  writes to the logger.
\<close>

datatype outcome = Relayed | AlreadyRelayed | Failed exn

fun outcome_of :: "log_entry \<Rightarrow> outcome option" where
  "outcome_of (WARNING, AlreadyProcessed _) = Some AlreadyRelayed"
| "outcome_of (INFO, SuccessfullyProcessed _) = Some Relayed"
| "outcome_of (ERROR, ErrorProcessing _ e) = Some (Failed e)"
| "outcome_of _ = None"

definition dispatch ::
  "BridgeConfig \<Rightarrow> dest_node \<Rightarrow> event \<Rightarrow> relayer \<Rightarrow> outcome option \<times> relayer" where
  "dispatch cfg w ev s =
     (case process_event cfg w ev s of
        (None, s') \<Rightarrow> (outcome_of (last (logged s')), s')
      | (Some e, s') \<Rightarrow> (None, s'))"

subsection \<open>BridgeEventListener\<close>

text \<open>
  What \<open>source_connector.web3\<close> answers during one iteration of the loop:
  \<open>eth.block_number\<close>, and the entries of an event filter created with the given
  \<open>fromBlock\<close> and \<open>toBlock\<close> (\<open>create_filter(...)\<close> followed by \<open>get_all_entries()\<close>).
\<close>

record source_node =
  block_number :: "exn + int"
  get_all_entries :: "int \<Rightarrow> int \<Rightarrow> exn + event list"

text \<open>
  The world during one iteration: the source node, the destination node at the time of
  the dispatch of the \<open>i\<close>-th event of the iteration, and the signal that arrives during
  \<open>time.sleep\<close>, if one does.
\<close>

record cycle_world =
  source :: source_node
  dest :: "nat \<Rightarrow> dest_node"
  sleep_signal :: "exn option"

text \<open>The \<open>for event in events\<close> loop; \<open>i\<close> counts the events already dispatched.\<close>

fun process_events ::
  "BridgeConfig \<Rightarrow> (nat \<Rightarrow> dest_node) \<Rightarrow> nat \<Rightarrow> event list \<Rightarrow> relayer \<Rightarrow> exn option \<times> relayer" where
  "process_events cfg d i [] s = (None, s)"
| "process_events cfg d i (ev # evs) s =
     (case process_event cfg (d i) ev s of
        (None, s') \<Rightarrow> process_events cfg d (Suc i) evs s'
      | (Some e, s') \<Rightarrow> (Some e, s'))"

text \<open>The body of the \<open>try\<close> of \<open>run\<close>, with the exception that leaves it, if any.\<close>

definition scan_and_dispatch ::
  "BridgeConfig \<Rightarrow> cycle_world \<Rightarrow> relayer \<Rightarrow> exn option \<times> relayer" where
  "scan_and_dispatch cfg W s =
     (case block_number (source W) of
        Inl e \<Rightarrow> (Some e, s)
      | Inr latest_block \<Rightarrow>
          if latest_block > last_processed_block s
          then
            (let from_block = last_processed_block s + 1;
                 to_block = latest_block;
                 s1 = logger INFO (Scanning from_block to_block) s;
                 s2 = s1\<lparr>src_queries := src_queries s1 @ [(from_block, to_block)]\<rparr> in
             case get_all_entries (source W) from_block to_block of
               Inl e \<Rightarrow> (Some e, s2)
             | Inr events \<Rightarrow>
                 (case (if events \<noteq> []
                        then process_events cfg (dest W) 0 events
                               (logger INFO (Found (length events)) s2)
                        else (None, logger INFO NoNewEvents s2)) of
                    (Some e, s3) \<Rightarrow> (Some e, s3)
                  | (None, s3) \<Rightarrow> (None, s3\<lparr>last_processed_block := to_block\<rparr>)))
          else (None, s))"

text \<open>
  \<open>time.sleep\<close> on an \<open>int\<close>. It first converts the length to nanoseconds in a signed
  64-bit integer and raises \<open>OverflowError\<close> (a subclass of \<open>Exception\<close> that is not a
  \<open>ValueError\<close>) when that does not fit; it then raises \<open>ValueError\<close> on a negative
  length; otherwise it sleeps, and a signal may interrupt it.
\<close>

definition sleep :: "int \<Rightarrow> exn option \<Rightarrow> exn option" where
  "sleep secs sig =
     (if secs * 1000000000 < - 9223372036854775808 \<or> 9223372036854775807 < secs * 1000000000
      then Some (OtherException ''OverflowError: timestamp too large to convert to C _PyTime_t'')
      else if secs < 0 then Some (ValueError ''sleep length must be non-negative'')
      else sig)"

text \<open>
  One iteration of \<open>while True\<close>: the \<open>try\<close>, its two \<open>except\<close> clauses, and the sleep,
  which is outside the \<open>try\<close>.
\<close>

definition run_cycle ::
  "BridgeConfig \<Rightarrow> cycle_world \<Rightarrow> relayer \<Rightarrow> exn option \<times> relayer" where
  "run_cycle cfg W s =
     (case (case scan_and_dispatch cfg W s of
              (None, s1) \<Rightarrow> (None, s1)
            | (Some e, s1) \<Rightarrow>
                if is_RequestsConnectionError e
                then (None, logger ERROR (RpcConnectionError e (poll_interval_seconds cfg)) s1)
                else if is_Exception e
                then (None, logger ERROR (UnexpectedError e) s1)
                else (Some e, s1)) of
        (Some e, s2) \<Rightarrow> (Some e, s2)
      | (None, s2) \<Rightarrow> (sleep (poll_interval_seconds cfg) (sleep_signal W), s2))"

text \<open>
  The loop never returns, so it is run against a finite prefix of the worlds it will meet:
  the result is the exception that ends the loop, or \<open>None\<close> when the loop is still
  running after the last world of the prefix.
\<close>

fun run_cycles ::
  "BridgeConfig \<Rightarrow> cycle_world list \<Rightarrow> relayer \<Rightarrow> exn option \<times> relayer" where
  "run_cycles cfg [] s = (None, s)"
| "run_cycles cfg (W # Ws) s =
     (case run_cycle cfg W s of
        (None, s') \<Rightarrow> run_cycles cfg Ws s'
      | (Some e, s') \<Rightarrow> (Some e, s'))"

definition run :: "BridgeConfig \<Rightarrow> cycle_world list \<Rightarrow> relayer \<Rightarrow> exn option \<times> relayer" where
  "run cfg Ws s =
     run_cycles cfg Ws
       (logger INFO (InitialBlock (last_processed_block s))
          (logger INFO (Starting (source_bridge_address cfg)) s))"

subsection \<open>Start-up\<close>

text \<open>
  What the nodes answer while the listener is constructed: whether the node at an RPC
  URL is connected, its chain id, the checksum form of an address, and the source head.
\<close>

record startup_world =
  is_connected :: "string \<Rightarrow> bool"
  chain_id :: "string \<Rightarrow> exn + int"
  to_checksum_address :: "string \<Rightarrow> exn + string"
  head_at_startup :: "exn + int"

definition initial :: relayer where
  "initial = \<lparr>processed_transactions = {}, last_processed_block = 0, logged = [],
              dest_calls = [], src_queries = []\<rparr>"

definition ChainConnector_init :: "startup_world \<Rightarrow> string \<Rightarrow> relayer \<Rightarrow> exn option \<times> relayer" where
  "ChainConnector_init w rpc_url s =
     (if \<not> is_connected w rpc_url
      then (Some (ConnectionError rpc_url), logger ERROR (ConnectFailed rpc_url) s)
      else (case chain_id w rpc_url of
              Inl e \<Rightarrow> (Some e, s)
            | Inr c \<Rightarrow> (None, logger INFO (Connected c) s)))"

text \<open>\<open>get_contract\<close> raises what \<open>to_checksum_address\<close> raises.\<close>

definition get_contract :: "startup_world \<Rightarrow> string \<Rightarrow> exn option" where
  "get_contract w address = (case to_checksum_address w address of Inl e \<Rightarrow> Some e | Inr _ \<Rightarrow> None)"

text \<open>
  \<open>BridgeEventListener.__init__\<close>: the two connectors, the handler (its contract and its
  empty set), the source contract, and \<open>config.start_block or ...block_number\<close>.
\<close>

definition BridgeEventListener_init ::
  "BridgeConfig \<Rightarrow> startup_world \<Rightarrow> exn option \<times> relayer" where
  "BridgeEventListener_init cfg w =
     (case ChainConnector_init w (source_chain_rpc cfg) initial of
        (Some e, s1) \<Rightarrow> (Some e, s1)
      | (None, s1) \<Rightarrow>
     (case ChainConnector_init w (destination_chain_rpc cfg) s1 of
        (Some e, s2) \<Rightarrow> (Some e, s2)
      | (None, s2) \<Rightarrow>
     (case get_contract w (destination_bridge_address cfg) of
        Some e \<Rightarrow> (Some e, s2)
      | None \<Rightarrow>
     (let s3 = s2\<lparr>processed_transactions := {}\<rparr> in
      case get_contract w (source_bridge_address cfg) of
        Some e \<Rightarrow> (Some e, s3)
      | None \<Rightarrow>
          if start_block cfg \<noteq> 0
          then (None, s3\<lparr>last_processed_block := start_block cfg\<rparr>)
          else (case head_at_startup w of
                  Inl e \<Rightarrow> (Some e, s3)
                | Inr h \<Rightarrow> (None, s3\<lparr>last_processed_block := h\<rparr>))))))"

subsection \<open>Configuration and entry point\<close>

text \<open>
  The process environment after \<open>load_dotenv()\<close>. \<open>os.getenv(var)\<close> is \<open>None\<close> for an
  unset variable; \<open>not os.getenv(var)\<close> also holds for one set to the empty string.
\<close>

type_synonym environ = "string \<rightharpoonup> string"

definition required_vars :: "string list" where
  "required_vars = [''SOURCE_CHAIN_RPC'', ''DESTINATION_CHAIN_RPC'',
                    ''SOURCE_BRIDGE_ADDRESS'', ''DESTINATION_BRIDGE_ADDRESS'',
                    ''LISTENER_PRIVATE_KEY'']"

definition missing :: "environ \<Rightarrow> string \<Rightarrow> bool" where
  "missing env var = (case env var of None \<Rightarrow> True | Some v \<Rightarrow> v = [])"

text \<open>The \<open>for var in required_vars\<close> loop: the first missing variable raises.\<close>

fun check_required :: "environ \<Rightarrow> string list \<Rightarrow> exn option" where
  "check_required env [] = None"
| "check_required env (var # vars) =
     (if missing env var then Some (ValueError var) else check_required env vars)"

text \<open>
  \<open>int(os.getenv(name, default))\<close>; \<open>py_int\<close> is Python's \<open>int\<close> on a string, \<open>None\<close>
  where it raises \<open>ValueError\<close>.
\<close>

definition getenv_int :: "(string \<Rightarrow> int option) \<Rightarrow> environ \<Rightarrow> string \<Rightarrow> int \<Rightarrow> exn + int" where
  "getenv_int py_int env name dflt =
     (case env name of
        None \<Rightarrow> Inr dflt
      | Some v \<Rightarrow> (case py_int v of None \<Rightarrow> Inl (ValueError v) | Some n \<Rightarrow> Inr n))"

text \<open>A required variable read after the check; the check has excluded \<open>None\<close>.\<close>

definition getenv_str :: "environ \<Rightarrow> string \<Rightarrow> string" where
  "getenv_str env name = (case env name of None \<Rightarrow> [] | Some v \<Rightarrow> v)"

definition load_config_from_env :: "(string \<Rightarrow> int option) \<Rightarrow> environ \<Rightarrow> exn + BridgeConfig" where
  "load_config_from_env py_int env =
     (case check_required env required_vars of
        Some e \<Rightarrow> Inl e
      | None \<Rightarrow>
          (case getenv_int py_int env ''START_BLOCK'' 0 of
             Inl e \<Rightarrow> Inl e
           | Inr sb \<Rightarrow>
               (case getenv_int py_int env ''POLL_INTERVAL_SECONDS'' 15 of
                  Inl e \<Rightarrow> Inl e
                | Inr poll \<Rightarrow>
                    Inr \<lparr>source_chain_rpc = getenv_str env ''SOURCE_CHAIN_RPC'',
                         destination_chain_rpc = getenv_str env ''DESTINATION_CHAIN_RPC'',
                         source_bridge_address = getenv_str env ''SOURCE_BRIDGE_ADDRESS'',
                         destination_bridge_address = getenv_str env ''DESTINATION_BRIDGE_ADDRESS'',
                         listener_private_key = getenv_str env ''LISTENER_PRIVATE_KEY'',
                         start_block = sb,
                         poll_interval_seconds = poll\<rparr>)))"

text \<open>
  How the process stands after a finite prefix of worlds: still in the loop, ended by
  falling off the end of the script (exit status 0), or killed by an exception that no
  clause caught (a traceback and a non-zero exit status).
\<close>

datatype process = Running relayer | ExitZero relayer | Killed exn relayer

text \<open>The two \<open>except\<close> clauses of the entry point.\<close>

definition main_except :: "exn \<Rightarrow> relayer \<Rightarrow> process" where
  "main_except e s =
     (if is_ValueError e then ExitZero (logger ERROR (ConfigurationError e) s)
      else if is_Exception e then ExitZero (logger CRITICAL (CriticalInitialization e) s)
      else Killed e s)"

definition main ::
  "(string \<Rightarrow> int option) \<Rightarrow> environ \<Rightarrow> startup_world \<Rightarrow> cycle_world list \<Rightarrow> process" where
  "main py_int env w Ws =
     (case load_config_from_env py_int env of
        Inl e \<Rightarrow> main_except e initial
      | Inr config \<Rightarrow>
          (case BridgeEventListener_init config w of
             (Some e, s) \<Rightarrow> main_except e s
           | (None, s) \<Rightarrow>
               (case run config Ws s of
                  (Some e, s') \<Rightarrow> main_except e s'
                | (None, s') \<Rightarrow> Running s')))"

section \<open>What a run shows\<close>

text \<open>
  The observations the properties are stated on, each read from what the process has
  logged or asked of the nodes.
\<close>

fun state_of :: "process \<Rightarrow> relayer" where
  "state_of (Running s) = s"
| "state_of (ExitZero s) = s"
| "state_of (Killed e s) = s"

text \<open>
  The number of completed releases for a transaction id: \<open>process_event\<close> logs
  \<open>SuccessfullyProcessed\<close> once for each release that was built and signed.
\<close>

definition relayed_count :: "string \<Rightarrow> relayer \<Rightarrow> nat" where
  "relayed_count t s = count_list (logged s) (INFO, SuccessfullyProcessed t)"

text \<open>The calls that build a \<open>releaseTokens\<close> transaction for a transaction id.\<close>

fun releases :: "string \<Rightarrow> dest_call \<Rightarrow> bool" where
  "releases t (BuildTransaction (releaseTokens i _ _ _) _) = (hex i = t)"
| "releases t _ = False"

text \<open>The set records every id with a completed release, and none twice.\<close>

definition once :: "string \<Rightarrow> relayer \<Rightarrow> bool" where
  "once t s = (relayed_count t s \<le> (if t \<in> processed_transactions s then 1 else 0))"

text \<open>
  The dispatches so far, in order: the transaction id and the outcome of every call of
  \<open>process_event\<close> that returned.
\<close>

fun dispatched :: "log_entry \<Rightarrow> (string \<times> outcome) option" where
  "dispatched (WARNING, AlreadyProcessed t) = Some (t, AlreadyRelayed)"
| "dispatched (INFO, SuccessfullyProcessed t) = Some (t, Relayed)"
| "dispatched (ERROR, ErrorProcessing ev e) = Some (hex (transactionId (args ev)), Failed e)"
| "dispatched _ = None"

definition outcomes :: "relayer \<Rightarrow> (string \<times> outcome) list" where
  "outcomes s = List.map_filter dispatched (logged s)"

text \<open>
  A world without shutdown signals: every call answers or raises a subclass of
  \<open>Exception\<close>, and nothing interrupts the sleep. Node failures of every kind remain.
\<close>

fun no_signal :: "exn + 'a \<Rightarrow> bool" where
  "no_signal (Inl e) = is_Exception e"
| "no_signal (Inr _) = True"

definition no_signal_dest :: "dest_node \<Rightarrow> bool" where
  "no_signal_dest w =
     ((\<forall>k. no_signal (from_key w k)) \<and>
      (\<forall>a. no_signal (get_transaction_count w a)) \<and>
      no_signal (gas_price w) \<and>
      (\<forall>c p. no_signal (build_transaction w c p)) \<and>
      (\<forall>t k. no_signal (sign_transaction w t k)))"


section \<open>Example worlds\<close>

definition example_config :: BridgeConfig where
  "example_config =
     \<lparr>source_chain_rpc = ''http://source'', destination_chain_rpc = ''http://destination'',
      source_bridge_address = ''0xSourceBridge'', destination_bridge_address = ''0xDestBridge'',
      listener_private_key = ''0xKey'', start_block = 10, poll_interval_seconds = 1\<rparr>"

text \<open>A destination node that answers every call.\<close>

definition healthy_dest :: dest_node where
  "healthy_dest =
     \<lparr>from_key = (\<lambda>k. Inr ''0xWallet''),
      get_transaction_count = (\<lambda>a. Inr 7),
      gas_price = Inr 3,
      build_transaction = (\<lambda>c p. Inr ''release''),
      sign_transaction = (\<lambda>t k. Inr \<lparr>signed_hash = [0x5A], rawTransaction = [0x02]\<rparr>)\<rparr>"

text \<open>
  One that builds the transaction and fails to sign it, one that fails to build it, and one
  that is unreachable.
\<close>

definition unsigning_dest :: dest_node where
  "unsigning_dest = healthy_dest\<lparr>sign_transaction := (\<lambda>t k. Inl (OtherException ''cannot sign''))\<rparr>"

definition unbuilding_dest :: dest_node where
  "unbuilding_dest =
     healthy_dest\<lparr>build_transaction := (\<lambda>c p. Inl (OtherException ''cannot build''))\<rparr>"

definition unreachable_dest :: dest_node where
  "unreachable_dest =
     healthy_dest\<lparr>get_transaction_count := (\<lambda>a. Inl (RequestsConnectionError ''destination''))\<rparr>"

definition transfer :: "8 word \<Rightarrow> int \<Rightarrow> event" where
  "transfer i b =
     \<lparr>args = \<lparr>transactionId = [i], sender = ''0xSender'', destinationChainId = 2,
              token = ''0xToken'', amount = 50\<rparr>,
      blockNumber = b, logIndex = 0\<rparr>"

text \<open>
  A source head at block 15 with transfers in blocks 11, 13 and 14, and a destination that
  cannot sign when the second of them is dispatched.
\<close>

definition example_source :: source_node where
  "example_source =
     \<lparr>block_number = Inr 15,
      get_all_entries = (\<lambda>f t. Inr (filter (\<lambda>e. f \<le> blockNumber e \<and> blockNumber e \<le> t)
                                      [transfer 0x11 11, transfer 0x13 13, transfer 0x14 14]))\<rparr>"

definition example_cycle :: cycle_world where
  "example_cycle =
     \<lparr>source = example_source,
      dest = (\<lambda>i. if i = 1 then unsigning_dest else healthy_dest),
      sleep_signal = None\<rparr>"

text \<open>
  A later cycle in which the source emits, in block 17, a second transfer with the id of
  the one whose release could not be signed, and the destination answers every call.
\<close>

definition redelivery_cycle :: cycle_world where
  "redelivery_cycle =
     \<lparr>source =
        \<lparr>block_number = Inr 20,
         get_all_entries = (\<lambda>f t. Inr (filter (\<lambda>e. f \<le> blockNumber e \<and> blockNumber e \<le> t)
                                         [transfer 0x13 17]))\<rparr>,
      dest = (\<lambda>i. healthy_dest),
      sleep_signal = None\<rparr>"

text \<open>A cycle in which the source node cannot be reached.\<close>

definition offline_cycle :: cycle_world where
  "offline_cycle =
     \<lparr>source = \<lparr>block_number = Inl (RequestsConnectionError ''source''),
                get_all_entries = (\<lambda>f t. Inl (RequestsConnectionError ''source''))\<rparr>,
      dest = (\<lambda>i. unreachable_dest),
      sleep_signal = None\<rparr>"

text \<open>
  Modelled from the spec: a source ledger that answers an event query wider than a cap
  with \<open>RangeTooLarge\<close> (the \<open>queryEvents\<close> of the spec's LedgerClient, and its
  \<open>maxScanRangeSize\<close>). The script has neither the option nor the error class; the node's
  refusal reaches it as an exception of the query.
\<close>

definition capped_source :: "int \<Rightarrow> int \<Rightarrow> event list \<Rightarrow> source_node" where
  "capped_source cap head evs =
     \<lparr>block_number = Inr head,
      get_all_entries =
        (\<lambda>f t. if t - f + 1 > cap then Inl (OtherException ''RangeTooLarge'')
                else Inr (filter (\<lambda>e. f \<le> blockNumber e \<and> blockNumber e \<le> t) evs))\<rparr>"

definition capped_cycle :: cycle_world where
  "capped_cycle =
     \<lparr>source = capped_source 1000 5000 [], dest = (\<lambda>i. healthy_dest), sleep_signal = None\<rparr>"

text \<open>A complete environment, and start-up worlds with and without a reachable node.\<close>

definition example_env :: environ where
  "example_env =
     [''SOURCE_CHAIN_RPC'' \<mapsto> ''http://source'',
      ''DESTINATION_CHAIN_RPC'' \<mapsto> ''http://destination'',
      ''SOURCE_BRIDGE_ADDRESS'' \<mapsto> ''0xSourceBridge'',
      ''DESTINATION_BRIDGE_ADDRESS'' \<mapsto> ''0xDestBridge'',
      ''LISTENER_PRIVATE_KEY'' \<mapsto> ''0xKey'',
      ''START_BLOCK'' \<mapsto> ''10'',
      ''POLL_INTERVAL_SECONDS'' \<mapsto> ''1'']"

text \<open>An \<open>int\<close> that reads the two numerals of the example and rejects everything else.\<close>

definition example_int :: "string \<Rightarrow> int option" where
  "example_int v = (if v = ''10'' then Some 10 else if v = ''1'' then Some 1 else None)"

definition example_startup :: startup_world where
  "example_startup =
     \<lparr>is_connected = (\<lambda>u. True), chain_id = (\<lambda>u. Inr 1),
      to_checksum_address = (\<lambda>a. Inr a), head_at_startup = Inr 10\<rparr>"

definition unreachable_startup :: startup_world where
  "unreachable_startup = example_startup\<lparr>is_connected := (\<lambda>u. False)\<rparr>"

section \<open>Frames\<close>


lemma logger_fields [simp]:
  "processed_transactions (logger l m s) = processed_transactions s"
  "last_processed_block (logger l m s) = last_processed_block s"
  "logged (logger l m s) = logged s @ [(l, m)]"
  "dest_calls (logger l m s) = dest_calls s"
  "src_queries (logger l m s) = src_queries s"
  by (simp_all add: logger_def)

lemma calls_fields [simp]:
  "processed_transactions (calls c s) = processed_transactions s"
  "last_processed_block (calls c s) = last_processed_block s"
  "logged (calls c s) = logged s"
  "dest_calls (calls c s) = dest_calls s @ [c]"
  "src_queries (calls c s) = src_queries s"
  by (simp_all add: calls_def)

lemma build_and_sign_frame:
  assumes "build_and_sign cfg w a wa s = (r, s')"
  shows "processed_transactions s' = processed_transactions s"
    and "last_processed_block s' = last_processed_block s"
    and "logged s' = logged s"
    and "src_queries s' = src_queries s"
  using assms
  by (auto simp: build_and_sign_def Let_def split: sum.splits)

lemma build_and_sign_calls:
  assumes "build_and_sign cfg w a wa s = (r, s')"
  shows "filter is_broadcast (dest_calls s') = filter is_broadcast (dest_calls s)"
    and "hex (transactionId a) \<noteq> t \<Longrightarrow>
         filter (releases t) (dest_calls s') = filter (releases t) (dest_calls s)"
  using assms
  by (auto simp: build_and_sign_def Let_def split: sum.splits)

lemma simulate_frame:
  assumes "simulate_release_tokens cfg w ev s = (r, s')"
  shows "processed_transactions s' = processed_transactions s"
    and "last_processed_block s' = last_processed_block s"
    and "src_queries s' = src_queries s"
    and "relayed_count t s' = relayed_count t s"
  using assms
  by (auto simp: simulate_release_tokens_def Let_def relayed_count_def
      split: sum.splits prod.splits if_splits dest: build_and_sign_frame)

lemma simulate_calls:
  assumes "simulate_release_tokens cfg w ev s = (r, s')"
  shows "filter is_broadcast (dest_calls s') = filter is_broadcast (dest_calls s)"
    and "hex (transactionId (args ev)) \<noteq> t \<Longrightarrow>
         filter (releases t) (dest_calls s') = filter (releases t) (dest_calls s)"
  using assms
  by (auto simp: simulate_release_tokens_def Let_def
      split: sum.splits prod.splits if_splits dest: build_and_sign_calls)

text \<open>The four ways through \<open>process_event\<close>.\<close>

lemma process_event_cases [consumes 1, case_names skipped relayed failed signalled]:
  assumes "process_event cfg w ev s = (r, s')"
  obtains
    "hex (transactionId (args ev)) \<in> processed_transactions s" and "r = None"
      and "s' = logger WARNING (AlreadyProcessed (hex (transactionId (args ev)))) s"
  | s1 where "hex (transactionId (args ev)) \<notin> processed_transactions s"
      and "simulate_release_tokens cfg w ev
             (logger INFO (ProcessingNew (hex (transactionId (args ev)))) s) = (None, s1)"
      and "r = None"
      and "s' = logger INFO (SuccessfullyProcessed (hex (transactionId (args ev))))
                  (s1\<lparr>processed_transactions :=
                        insert (hex (transactionId (args ev))) (processed_transactions s1)\<rparr>)"
  | e s1 where "hex (transactionId (args ev)) \<notin> processed_transactions s"
      and "simulate_release_tokens cfg w ev
             (logger INFO (ProcessingNew (hex (transactionId (args ev)))) s) = (Some e, s1)"
      and "is_Exception e" and "r = None"
      and "s' = logger ERROR (ErrorProcessing ev e) s1"
  | e s1 where "hex (transactionId (args ev)) \<notin> processed_transactions s"
      and "simulate_release_tokens cfg w ev
             (logger INFO (ProcessingNew (hex (transactionId (args ev)))) s) = (Some e, s1)"
      and "\<not> is_Exception e" and "r = Some e" and "s' = s1"
proof (cases "hex (transactionId (args ev)) \<in> processed_transactions s")
  case True
  with assms that(1) show ?thesis by (simp add: process_event_def Let_def)
next
  case False
  obtain r1 s1 where sim: "simulate_release_tokens cfg w ev
      (logger INFO (ProcessingNew (hex (transactionId (args ev)))) s) = (r1, s1)"
    by (cases "simulate_release_tokens cfg w ev
      (logger INFO (ProcessingNew (hex (transactionId (args ev)))) s)")
  show ?thesis
  proof (cases r1)
    case None
    with assms False sim that(2) show ?thesis by (simp add: process_event_def Let_def)
  next
    case (Some e)
    show ?thesis
    proof (cases "is_Exception e")
      case True
      with assms False sim Some that(3) show ?thesis by (simp add: process_event_def Let_def)
    next
      case no: False
      with assms False sim Some that(4) show ?thesis by (simp add: process_event_def Let_def)
    qed
  qed
qed

lemma process_event_frame:
  assumes "process_event cfg w ev s = (r, s')"
  shows "last_processed_block s' = last_processed_block s"
    and "src_queries s' = src_queries s"
    and "filter is_broadcast (dest_calls s') = filter is_broadcast (dest_calls s)"
  using assms
  by (cases rule: process_event_cases; simp add: simulate_frame simulate_calls)+

section \<open>Invariants of the loop\<close>

text \<open>
  A property of the state that every dispatch preserves, and that logging, recording a
  query and advancing the block preserve, holds along the whole loop.
\<close>

lemma process_events_invariant:
  assumes step: "\<And>w ev s r s'. P s \<Longrightarrow> process_event cfg w ev s = (r, s') \<Longrightarrow> P s'"
  shows "P s \<Longrightarrow> process_events cfg d i evs s = (r, s') \<Longrightarrow> P s'"
proof (induction evs arbitrary: i s)
  case Nil
  then show ?case by simp
next
  case (Cons ev evs)
  obtain r1 s1 where pe: "process_event cfg (d i) ev s = (r1, s1)"
    by (cases "process_event cfg (d i) ev s")
  have p1: "P s1" using step [OF Cons.prems(1) pe] .
  show ?case
  proof (cases r1)
    case None
    with Cons.prems(2) pe have "process_events cfg d (Suc i) evs s1 = (r, s')" by simp
    then show ?thesis using Cons.IH p1 by blast
  next
    case (Some e)
    with Cons.prems(2) pe p1 show ?thesis by simp
  qed
qed

lemma process_events_block:
  "process_events cfg d i evs s = (r, s') \<Longrightarrow> last_processed_block s' = last_processed_block s"
  by (rule process_events_invariant
      [where P = "\<lambda>x. last_processed_block x = last_processed_block s"])
     (simp_all add: process_event_frame)

lemma process_events_queries:
  "process_events cfg d i evs s = (r, s') \<Longrightarrow> src_queries s' = src_queries s"
  by (rule process_events_invariant [where P = "\<lambda>x. src_queries x = src_queries s"])
     (simp_all add: process_event_frame)

lemma scan_and_dispatch_invariant:
  assumes step: "\<And>w ev s r s'. P s \<Longrightarrow> process_event cfg w ev s = (r, s') \<Longrightarrow> P s'"
    and log: "\<And>l m s. P s \<Longrightarrow> (\<forall>t. m \<noteq> SuccessfullyProcessed t) \<Longrightarrow> P (logger l m s)"
    and qry: "\<And>s q. P s \<Longrightarrow> P (s\<lparr>src_queries := q\<rparr>)"
    and adv: "\<And>s b. P s \<Longrightarrow> last_processed_block s < b \<Longrightarrow> P (s\<lparr>last_processed_block := b\<rparr>)"
    and P: "P s" and run: "scan_and_dispatch cfg W s = (r, s')"
  shows "P s'"
proof (cases "block_number (source W)")
  case (Inl e)
  with run P show ?thesis by (simp add: scan_and_dispatch_def)
next
  case (Inr H)
  show ?thesis
  proof (cases "H > last_processed_block s")
    case False
    with run P Inr show ?thesis by (simp add: scan_and_dispatch_def)
  next
    case True
    define s2 where "s2 = (logger INFO (Scanning (last_processed_block s + 1) H) s)
      \<lparr>src_queries := src_queries s @ [(last_processed_block s + 1, H)]\<rparr>"
    have P2: "P s2" unfolding s2_def by (intro qry log P) simp
    have b2: "last_processed_block s2 = last_processed_block s" by (simp add: s2_def)
    show ?thesis
    proof (cases "get_all_entries (source W) (last_processed_block s + 1) H")
      case (Inl e)
      with run True Inr P2 show ?thesis
        by (simp add: scan_and_dispatch_def Let_def s2_def)
    next
      case evs: (Inr events)
      show ?thesis
      proof (cases "events = []")
        case True
        have "P ((logger INFO NoNewEvents s2)\<lparr>last_processed_block := H\<rparr>)"
          using \<open>H > last_processed_block s\<close> b2 by (intro adv log P2) simp_all
        with run \<open>H > last_processed_block s\<close> Inr evs True show ?thesis
          by (simp add: scan_and_dispatch_def Let_def s2_def)
      next
        case False
        obtain r3 s3 where pe: "process_events cfg (dest W) 0 events
            (logger INFO (Found (length events)) s2) = (r3, s3)"
          by (cases "process_events cfg (dest W) 0 events (logger INFO (Found (length events)) s2)")
        have Pf: "P (logger INFO (Found (length events)) s2)" by (intro log P2) simp
        have P3: "P s3"
          by (rule process_events_invariant [where P = P, OF _ Pf pe]) (blast intro: step)
        have b3: "last_processed_block s3 = last_processed_block s"
          using process_events_block [OF pe] b2 by simp
        have "P (s3\<lparr>last_processed_block := H\<rparr>)"
          using \<open>H > last_processed_block s\<close> b3 by (intro adv P3) simp
        with run \<open>H > last_processed_block s\<close> Inr evs False pe P3 show ?thesis
          by (auto simp: scan_and_dispatch_def Let_def s2_def split: option.splits)
      qed
    qed
  qed
qed

lemma run_cycle_invariant:
  assumes step: "\<And>w ev s r s'. P s \<Longrightarrow> process_event cfg w ev s = (r, s') \<Longrightarrow> P s'"
    and log: "\<And>l m s. P s \<Longrightarrow> (\<forall>t. m \<noteq> SuccessfullyProcessed t) \<Longrightarrow> P (logger l m s)"
    and qry: "\<And>s q. P s \<Longrightarrow> P (s\<lparr>src_queries := q\<rparr>)"
    and adv: "\<And>s b. P s \<Longrightarrow> last_processed_block s < b \<Longrightarrow> P (s\<lparr>last_processed_block := b\<rparr>)"
    and P: "P s" and run: "run_cycle cfg W s = (r, s')"
  shows "P s'"
proof -
  obtain r1 s1 where sd: "scan_and_dispatch cfg W s = (r1, s1)"
    by (cases "scan_and_dispatch cfg W s")
  have P1: "P s1"
  proof (rule scan_and_dispatch_invariant [where P = P, OF _ _ _ _ P sd])
    show "\<And>w ev s r s'. P s \<Longrightarrow> process_event cfg w ev s = (r, s') \<Longrightarrow> P s'"
      by (blast intro: step)
  qed (blast intro: log qry adv)+
  from run sd P1 show ?thesis
    by (auto simp: run_cycle_def log split: option.splits if_splits)
qed

lemma run_cycles_invariant:
  assumes step: "\<And>w ev s r s'. P s \<Longrightarrow> process_event cfg w ev s = (r, s') \<Longrightarrow> P s'"
    and log: "\<And>l m s. P s \<Longrightarrow> (\<forall>t. m \<noteq> SuccessfullyProcessed t) \<Longrightarrow> P (logger l m s)"
    and qry: "\<And>s q. P s \<Longrightarrow> P (s\<lparr>src_queries := q\<rparr>)"
    and adv: "\<And>s b. P s \<Longrightarrow> last_processed_block s < b \<Longrightarrow> P (s\<lparr>last_processed_block := b\<rparr>)"
  shows "P s \<Longrightarrow> run_cycles cfg Ws s = (r, s') \<Longrightarrow> P s'"
proof (induction Ws arbitrary: s)
  case Nil
  then show ?case by simp
next
  case (Cons W Ws)
  obtain r1 s1 where rc: "run_cycle cfg W s = (r1, s1)"
    by (cases "run_cycle cfg W s")
  have P1: "P s1"
  proof (rule run_cycle_invariant [where P = P, OF _ _ _ _ Cons.prems(1) rc])
    show "\<And>w ev s r s'. P s \<Longrightarrow> process_event cfg w ev s = (r, s') \<Longrightarrow> P s'"
      by (blast intro: step)
  qed (blast intro: log qry adv)+
  show ?case
  proof (cases r1)
    case None
    with Cons.prems(2) rc have "run_cycles cfg Ws s1 = (r, s')" by simp
    then show ?thesis using Cons.IH P1 by blast
  next
    case (Some e)
    with Cons.prems(2) rc P1 show ?thesis by simp
  qed
qed

text \<open>The same from the start of the process to wherever it stands.\<close>

lemma ChainConnector_init_frame:
  assumes "ChainConnector_init w u s = (r, s')"
  shows "\<exists>l m. s' = s \<or> (s' = logger l m s \<and> (\<forall>t. m \<noteq> SuccessfullyProcessed t))"
  using assms
  by (auto simp: ChainConnector_init_def split: if_splits sum.splits)

lemma main_invariant:
  assumes step: "\<And>cfg w ev s r s'. P s \<Longrightarrow> process_event cfg w ev s = (r, s') \<Longrightarrow> P s'"
    and log: "\<And>l m s. P s \<Longrightarrow> (\<forall>t. m \<noteq> SuccessfullyProcessed t) \<Longrightarrow> P (logger l m s)"
    and qry: "\<And>s q. P s \<Longrightarrow> P (s\<lparr>src_queries := q\<rparr>)"
    and adv: "\<And>s b. P s \<Longrightarrow> P (s\<lparr>last_processed_block := b\<rparr>)"
    and init: "P initial"
  shows "P (state_of (main py_int env w Ws))"
proof -
  have exc: "P (state_of (main_except e s))" if "P s" for e s
    using that by (simp add: main_except_def log)
  have conn: "P s'" if "P s" "ChainConnector_init w u s = (r, s')" for u s r s'
    using ChainConnector_init_frame [OF that(2)] that(1) log by auto
  show ?thesis
  proof (cases "load_config_from_env py_int env")
    case (Inl e)
    then show ?thesis using exc [OF init] by (simp add: main_def)
  next
    case (Inr config)
    obtain r0 s0 where li: "BridgeEventListener_init config w = (r0, s0)"
      by (cases "BridgeEventListener_init config w")
    have P0: "P s0"
    proof (cases "ChainConnector_init w (source_chain_rpc config) initial")
      case (Pair r1 s1)
      have P1: "P s1" using conn [OF init Pair] .
      have e1: "processed_transactions s1 = {}"
        using ChainConnector_init_frame [OF Pair] by (auto simp: initial_def)
      show ?thesis
      proof (cases r1)
        case (Some e)
        with li Pair P1 show ?thesis by (simp add: BridgeEventListener_init_def)
      next
        case None
        obtain r2 s2 where c2: "ChainConnector_init w (destination_chain_rpc config) s1 = (r2, s2)"
          by (cases "ChainConnector_init w (destination_chain_rpc config) s1")
        have P2: "P s2" using conn [OF P1 c2] .
        have "processed_transactions s2 = {}"
          using ChainConnector_init_frame [OF c2] e1 by auto
        then have same: "s2\<lparr>processed_transactions := {}\<rparr> = s2" by simp
        from li Pair None c2 P2 same show ?thesis
          by (auto simp: BridgeEventListener_init_def Let_def get_contract_def
              split: option.splits sum.splits if_splits intro!: adv)
      qed
    qed
    show ?thesis
    proof (cases r0)
      case (Some e)
      with Inr li show ?thesis using exc [OF P0] by (simp add: main_def)
    next
      case None
      obtain r1 s1 where rn: "run config Ws s0 = (r1, s1)"
        by (cases "run config Ws s0")
      have Pr: "P (logger INFO (InitialBlock (last_processed_block s0))
                (logger INFO (Starting (source_bridge_address config)) s0))"
        by (intro log P0) simp_all
      have P1: "P s1"
      proof (rule run_cycles_invariant [where P = P, OF _ _ _ _ Pr rn [unfolded run_def]])
        show "\<And>w ev s r s'. P s \<Longrightarrow> process_event config w ev s = (r, s') \<Longrightarrow> P s'"
          by (blast intro: step)
      qed (blast intro: log qry adv)+
      from Inr li None rn show ?thesis
        using exc [OF P1] P1 by (cases r1) (simp_all add: main_def)
    qed
  qed
qed

section \<open>Deduplication\<close>

lemma process_event_once:
  assumes "once t s" and "process_event cfg w ev s = (r, s')"
  shows "once t s'"
  using assms(2)
proof (cases rule: process_event_cases)
  case skipped
  with assms(1) show ?thesis by (simp add: once_def relayed_count_def)
next
  case (relayed s1)
  from simulate_frame(1) [OF relayed(2)] simulate_frame(4) [OF relayed(2), of t] assms(1) relayed(1) show ?thesis
    unfolding relayed(4) by (auto simp: once_def relayed_count_def split: if_splits)
next
  case (failed e s1)
  from simulate_frame(1) [OF failed(2)] simulate_frame(4) [OF failed(2), of t] assms(1) show ?thesis
    unfolding failed(5) by (auto simp: once_def relayed_count_def split: if_splits)
next
  case (signalled e s1)
  from simulate_frame(1) [OF signalled(2)] simulate_frame(4) [OF signalled(2), of t] assms(1) show ?thesis
    unfolding signalled(5) by (auto simp: once_def relayed_count_def split: if_splits)
qed

lemma process_event_recorded:
  assumes "t \<in> processed_transactions s" and "process_event cfg w ev s = (r, s')"
  shows "t \<in> processed_transactions s' \<and>
         filter (releases t) (dest_calls s') = filter (releases t) (dest_calls s)"
  using assms(2)
proof (cases rule: process_event_cases)
  case skipped
  with assms(1) show ?thesis by simp
next
  case (relayed s1)
  from relayed(1) assms(1) have "hex (transactionId (args ev)) \<noteq> t" by blast
  from simulate_frame(1) [OF relayed(2)] simulate_calls(2) [OF relayed(2) this] assms(1)
  show ?thesis unfolding relayed(4) by simp
next
  case (failed e s1)
  from failed(1) assms(1) have "hex (transactionId (args ev)) \<noteq> t" by blast
  from simulate_frame(1) [OF failed(2)] simulate_calls(2) [OF failed(2) this] assms(1)
  show ?thesis unfolding failed(5) by simp
next
  case (signalled e s1)
  from signalled(1) assms(1) have "hex (transactionId (args ev)) \<noteq> t" by blast
  from simulate_frame(1) [OF signalled(2)] simulate_calls(2) [OF signalled(2) this] assms(1)
  show ?thesis unfolding signalled(5) by simp
qed

lemma run_cycles_recorded:
  assumes "t \<in> processed_transactions s" and "run_cycles cfg Ws s = (r, s')"
  shows "filter (releases t) (dest_calls s') = filter (releases t) (dest_calls s)"
proof -
  let ?P = "\<lambda>x. t \<in> processed_transactions x \<and>
                 filter (releases t) (dest_calls x) = filter (releases t) (dest_calls s)"
  have "?P s'"
  proof (rule run_cycles_invariant [where P = ?P, OF _ _ _ _ _ assms(2)])
    fix w ev s0 r s1
    assume a: "?P s0" and b: "process_event cfg w ev s0 = (r, s1)"
    from process_event_recorded [OF conjunct1 [OF a] b] a show "?P s1" by simp
  qed (simp_all add: assms(1))
  then show ?thesis by simp
qed

lemma main_once: "once t (state_of (main py_int env w Ws))"
proof (rule main_invariant [where P = "once t"])
  show "\<And>cfg w ev s r s'. once t s \<Longrightarrow> process_event cfg w ev s = (r, s') \<Longrightarrow> once t s'"
    by (rule process_event_once)
qed (auto simp: once_def relayed_count_def initial_def)

text \<open>
  C1, as the script has it. Dispatching an event whose transaction id is already in
  \<open>processed_transactions\<close> reports \<open>AlreadyRelayed\<close> and leaves the state as it was but
  for the warning it logs: the check comes first, so no call reaches the destination node
  and the set is untouched. Once an id is in the set, no later cycle of the loop builds a
  release transaction for it, whatever the nodes deliver. And in every run of the process,
  from any environment and against any nodes, at most one release is completed (built and
  signed) for a transaction id. A release that failed is not a completed one: its id is
  not recorded, and a later event with that id has its release built again.
\<close>

theorem at_most_once_dispatch:
  "(hex (transactionId (args ev)) \<in> processed_transactions s \<longrightarrow>
      dispatch cfg w ev s =
        (Some AlreadyRelayed, logger WARNING (AlreadyProcessed (hex (transactionId (args ev)))) s))
   \<and> (t \<in> processed_transactions s \<longrightarrow>
      filter (releases t) (dest_calls (snd (run_cycles cfg Ws s))) =
      filter (releases t) (dest_calls s))
   \<and> relayed_count t (state_of (main py_int env w0 Ws0)) \<le> 1"
proof (intro conjI impI)
  assume "hex (transactionId (args ev)) \<in> processed_transactions s"
  then show "dispatch cfg w ev s =
      (Some AlreadyRelayed, logger WARNING (AlreadyProcessed (hex (transactionId (args ev)))) s)"
    by (simp add: dispatch_def process_event_def)
next
  assume "t \<in> processed_transactions s"
  then show "filter (releases t) (dest_calls (snd (run_cycles cfg Ws s))) =
      filter (releases t) (dest_calls s)"
    using run_cycles_recorded [of t s cfg Ws] by (cases "run_cycles cfg Ws s") simp
next
  show "relayed_count t (state_of (main py_int env w0 Ws0)) \<le> 1"
    using main_once [of t py_int env w0 Ws0] by (simp add: once_def split: if_splits)
qed

lemmas example_defs =
  example_config_def healthy_dest_def unsigning_dest_def unbuilding_dest_def
  unreachable_dest_def transfer_def
  example_source_def example_cycle_def redelivery_cycle_def offline_cycle_def
  capped_source_def capped_cycle_def
  example_env_def example_int_def example_startup_def unreachable_startup_def

lemmas run_defs =
  process_event_def simulate_release_tokens_def build_and_sign_def scan_and_dispatch_def
  run_cycle_def sleep_def run_def Let_def logger_def calls_def initial_def

lemma hex_examples:
  "hex [0x11] = ''11''" "hex [0x13] = ''13''" "hex [0x14] = ''14''" "HexBytes_hex [0x5A] = ''0x5a''"
  by (simp_all add: HexBytes_hex_def hex_def hex_byte_def hex_digit_def)

theorem at_most_once_dispatch_witness:
  "hex (transactionId (args (transfer 0x11 11)))
     \<in> processed_transactions (snd (process_event example_config healthy_dest (transfer 0x11 11) initial))
   \<and> dispatch example_config healthy_dest (transfer 0x11 11)
        (snd (process_event example_config healthy_dest (transfer 0x11 11) initial)) =
      (Some AlreadyRelayed,
       logger WARNING (AlreadyProcessed (hex (transactionId (args (transfer 0x11 11)))))
         (snd (process_event example_config healthy_dest (transfer 0x11 11) initial)))
   \<and> filter (releases (hex (transactionId (args (transfer 0x11 11)))))
        (dest_calls (snd (run_cycles example_config [example_cycle]
           (snd (process_event example_config healthy_dest (transfer 0x11 11) initial))))) =
      filter (releases (hex (transactionId (args (transfer 0x11 11)))))
        (dest_calls (snd (process_event example_config healthy_dest (transfer 0x11 11) initial)))
   \<and> relayed_count (hex (transactionId (args (transfer 0x11 11))))
        (state_of (main example_int example_env example_startup [example_cycle, example_cycle])) \<le> 1"
proof -
  let ?s = "snd (process_event example_config healthy_dest (transfer 0x11 11) initial)"
  let ?t = "hex (transactionId (args (transfer 0x11 11)))"
  have m: "?t \<in> processed_transactions ?s"
    by (simp add: run_defs example_defs)
  from m at_most_once_dispatch [where ev = "transfer 0x11 11" and s = ?s and t = ?t
      and cfg = example_config and w = healthy_dest and Ws = "[example_cycle]"
      and py_int = example_int and env = example_env and ?w0.0 = example_startup
      and ?Ws0.0 = "[example_cycle, example_cycle]"]
  show ?thesis by blast
qed

text \<open>
  C1, as stated, fails: the process can construct two release actions for one transaction
  id. In the first cycle the release for the transfer with id \<open>13\<close> is built and cannot be
  signed, so the id is not recorded; in the second cycle the source emits another transfer
  with that id, and its release is built again. Of the two, one is completed.
\<close>

theorem two_release_actions_counterexample:
  "filter (releases ''13'')
     (dest_calls (state_of
        (main example_int example_env example_startup [example_cycle, redelivery_cycle]))) =
     [BuildTransaction (releaseTokens [0x13] ''0xSender'' ''0xToken'' 50)
        \<lparr>tx_from = ''0xWallet'', tx_nonce = 7, tx_gas = 200000, tx_gasPrice = 3\<rparr>,
      BuildTransaction (releaseTokens [0x13] ''0xSender'' ''0xToken'' 50)
        \<lparr>tx_from = ''0xWallet'', tx_nonce = 7, tx_gas = 200000, tx_gasPrice = 3\<rparr>]
   \<and> relayed_count ''13''
       (state_of (main example_int example_env example_startup [example_cycle, redelivery_cycle]))
       = 1"
  by (simp add: main_def load_config_from_env_def required_vars_def missing_def getenv_int_def
      getenv_str_def BridgeEventListener_init_def ChainConnector_init_def get_contract_def
      relayed_count_def run_defs example_defs hex_examples)

section \<open>The watermark\<close>

text \<open>
  C4. The watermark \<open>last_processed_block\<close> never decreases: after any number of
  iterations of the loop, against any nodes, it is at least what it was, and one
  iteration either leaves it as it is or sets it to a strictly greater block.
\<close>

theorem watermark_monotone:
  "last_processed_block s \<le> last_processed_block (snd (run_cycles cfg Ws s))
   \<and> (last_processed_block (snd (run_cycle cfg W s)) = last_processed_block s
      \<or> last_processed_block s < last_processed_block (snd (run_cycle cfg W s)))"
proof
  obtain r s' where rc: "run_cycles cfg Ws s = (r, s')" by (cases "run_cycles cfg Ws s")
  have "last_processed_block s \<le> last_processed_block s'"
  proof (rule run_cycles_invariant
      [where P = "\<lambda>x. last_processed_block s \<le> last_processed_block x", OF _ _ _ _ _ rc])
    show "\<And>w ev s0 r s1. last_processed_block s \<le> last_processed_block s0 \<Longrightarrow>
        process_event cfg w ev s0 = (r, s1) \<Longrightarrow> last_processed_block s \<le> last_processed_block s1"
      by (simp add: process_event_frame)
  qed simp_all
  with rc show "last_processed_block s \<le> last_processed_block (snd (run_cycles cfg Ws s))"
    by simp
next
  obtain r s' where rc: "run_cycle cfg W s = (r, s')" by (cases "run_cycle cfg W s")
  have "last_processed_block s \<le> last_processed_block s'"
  proof (rule run_cycle_invariant
      [where P = "\<lambda>x. last_processed_block s \<le> last_processed_block x", OF _ _ _ _ _ rc])
    show "\<And>w ev s0 r s1. last_processed_block s \<le> last_processed_block s0 \<Longrightarrow>
        process_event cfg w ev s0 = (r, s1) \<Longrightarrow> last_processed_block s \<le> last_processed_block s1"
      by (simp add: process_event_frame)
  qed simp_all
  with rc show "last_processed_block (snd (run_cycle cfg W s)) = last_processed_block s
      \<or> last_processed_block s < last_processed_block (snd (run_cycle cfg W s))"
    by auto
qed

section \<open>Failures of a dispatch\<close>

lemma build_and_sign_no_signal:
  assumes "no_signal_dest w" and "build_and_sign cfg w a wa s = (Inl e, s')"
  shows "is_Exception e"
proof -
  from assms(1) have n: "no_signal (get_transaction_count w wa)" "no_signal (gas_price w)"
    "\<And>c p. no_signal (build_transaction w c p)" "\<And>t k. no_signal (sign_transaction w t k)"
    by (simp_all add: no_signal_dest_def)
  show ?thesis
  proof (cases "get_transaction_count w wa")
    case (Inl x)
    with assms(2) n(1) show ?thesis by (simp add: build_and_sign_def Let_def)
  next
    case nonce: (Inr nonce)
    show ?thesis
    proof (cases "gas_price w")
      case (Inl x)
      with assms(2) n(2) nonce show ?thesis by (simp add: build_and_sign_def Let_def)
    next
      case gp: (Inr gp)
      let ?call = "releaseTokens (transactionId a) (sender a) (token a) (amount a)"
      let ?payload = "\<lparr>tx_from = wa, tx_nonce = nonce, tx_gas = 200000, tx_gasPrice = gp\<rparr>"
      show ?thesis
      proof (cases "build_transaction w ?call ?payload")
        case (Inl x)
        with assms(2) n(3) [of ?call ?payload] nonce gp show ?thesis
          by (simp add: build_and_sign_def Let_def)
      next
        case tx: (Inr tx)
        from assms(2) n(4) [of tx "listener_private_key cfg"] nonce gp tx show ?thesis
          by (cases "sign_transaction w tx (listener_private_key cfg)")
             (simp_all add: build_and_sign_def Let_def)
      qed
    qed
  qed
qed

lemma simulate_no_signal:
  assumes "no_signal_dest w" and "simulate_release_tokens cfg w ev s = (Some e, s')"
  shows "is_Exception e"
proof (cases "from_key w (listener_private_key cfg)")
  case (Inl x)
  from assms(1) have "no_signal (from_key w (listener_private_key cfg))"
    by (simp add: no_signal_dest_def)
  with assms(2) Inl show ?thesis by (simp add: simulate_release_tokens_def Let_def)
next
  case (Inr wa)
  let ?s1 = "calls (FromKey (listener_private_key cfg))
      (logger INFO (PreparingRelease (amount (args ev)) (token (args ev)) (sender (args ev))
         (hex (transactionId (args ev)))) s)"
  obtain r2 s2 where bs: "build_and_sign cfg w (args ev) wa ?s1 = (r2, s2)"
    by (cases "build_and_sign cfg w (args ev) wa ?s1")
  show ?thesis
  proof (cases r2)
    case (Inl x)
    with bs have "is_Exception x" using build_and_sign_no_signal [OF assms(1)] by blast
    with assms(2) Inr bs Inl show ?thesis
      by (simp add: simulate_release_tokens_def Let_def)
  next
    case stx: (Inr stx)
    with assms(2) Inr bs show ?thesis by (simp add: simulate_release_tokens_def Let_def)
  qed
qed

lemma process_event_no_signal:
  assumes "no_signal_dest w"
  shows "fst (process_event cfg w ev s) = None"
proof -
  obtain r s' where pe: "process_event cfg w ev s = (r, s')"
    by (cases "process_event cfg w ev s")
  from pe have "r = None"
  proof (cases rule: process_event_cases)
    case (signalled e s1)
    with simulate_no_signal [OF assms signalled(2)] show ?thesis by simp
  qed simp_all
  with pe show ?thesis by simp
qed

lemma process_events_no_signal:
  assumes "\<And>i. no_signal_dest (d i)"
  shows "fst (process_events cfg d i evs s) = None"
proof (induction evs arbitrary: i s)
  case Nil
  show ?case by simp
next
  case (Cons ev evs)
  obtain s1 where "process_event cfg (d i) ev s = (None, s1)"
    using process_event_no_signal [OF assms, of cfg i ev s]
    by (cases "process_event cfg (d i) ev s") simp
  then show ?case using Cons.IH by simp
qed

text \<open>
  A failing call of the release leaves \<open>_simulate_release_tokens\<close> as the exception it
  raised: what fails before the \<open>try\<close> propagates as it is, what fails inside it is raised
  again by the \<open>except\<close> clause.
\<close>

lemma build_and_sign_raises:
  assumes "get_transaction_count w wallet = Inl e
     \<or> (\<exists>nonce. get_transaction_count w wallet = Inr nonce \<and>
          (gas_price w = Inl e
         \<or> (\<exists>gp. gas_price w = Inr gp \<and>
              (build_transaction w
                 (releaseTokens (transactionId a) (sender a) (token a) (amount a))
                 \<lparr>tx_from = wallet, tx_nonce = nonce, tx_gas = 200000, tx_gasPrice = gp\<rparr> = Inl e
             \<or> (\<exists>tx. build_transaction w
                    (releaseTokens (transactionId a) (sender a) (token a) (amount a))
                    \<lparr>tx_from = wallet, tx_nonce = nonce, tx_gas = 200000, tx_gasPrice = gp\<rparr> = Inr tx
                  \<and> sign_transaction w tx (listener_private_key cfg) = Inl e)))))"
  shows "fst (build_and_sign cfg w a wallet s) = Inl e"
  using assms
proof (elim disjE exE conjE)
  assume "get_transaction_count w wallet = Inl e"
  then show ?thesis by (simp add: build_and_sign_def Let_def)
next
  fix nonce
  assume "get_transaction_count w wallet = Inr nonce" "gas_price w = Inl e"
  then show ?thesis by (simp add: build_and_sign_def Let_def)
next
  fix nonce gp
  assume "get_transaction_count w wallet = Inr nonce" "gas_price w = Inr gp"
    "build_transaction w (releaseTokens (transactionId a) (sender a) (token a) (amount a))
       \<lparr>tx_from = wallet, tx_nonce = nonce, tx_gas = 200000, tx_gasPrice = gp\<rparr> = Inl e"
  then show ?thesis by (simp add: build_and_sign_def Let_def)
next
  fix nonce gp tx
  assume "get_transaction_count w wallet = Inr nonce" "gas_price w = Inr gp"
    "build_transaction w (releaseTokens (transactionId a) (sender a) (token a) (amount a))
       \<lparr>tx_from = wallet, tx_nonce = nonce, tx_gas = 200000, tx_gasPrice = gp\<rparr> = Inr tx"
    "sign_transaction w tx (listener_private_key cfg) = Inl e"
  then show ?thesis by (simp add: build_and_sign_def Let_def)
qed

lemma simulate_raises:
  assumes "from_key w (listener_private_key cfg) = Inl e
     \<or> (\<exists>wallet. from_key w (listener_private_key cfg) = Inr wallet \<and>
          fst (build_and_sign cfg w (args ev) wallet
                 (calls (FromKey (listener_private_key cfg))
                    (logger INFO (PreparingRelease (amount (args ev)) (token (args ev))
                       (sender (args ev)) (hex (transactionId (args ev)))) s))) = Inl e)"
  shows "fst (simulate_release_tokens cfg w ev s) = Some e"
  using assms
proof (elim disjE exE conjE)
  assume "from_key w (listener_private_key cfg) = Inl e"
  then show ?thesis by (simp add: simulate_release_tokens_def Let_def)
next
  fix wallet
  let ?s1 = "calls (FromKey (listener_private_key cfg))
      (logger INFO (PreparingRelease (amount (args ev)) (token (args ev))
         (sender (args ev)) (hex (transactionId (args ev)))) s)"
  assume k: "from_key w (listener_private_key cfg) = Inr wallet"
    and f: "fst (build_and_sign cfg w (args ev) wallet ?s1) = Inl e"
  obtain s2 where "build_and_sign cfg w (args ev) wallet ?s1 = (Inl e, s2)"
    using f by (cases "build_and_sign cfg w (args ev) wallet ?s1") simp
  with k show ?thesis by (simp add: simulate_release_tokens_def Let_def)
qed

text \<open>
  C3. When a call of the release fails with an exception for an event that is not yet
  recorded (deriving the account from the key, reading the nonce or the gas price,
  building the transaction, or signing it; the script has no submission), the dispatch
  reports \<open>Failed\<close> with that exception and leaves \<open>processed_transactions\<close> as it was, so
  the id is still absent from it, and a later dispatch of the same event is not answered
  \<open>AlreadyRelayed\<close>.
\<close>

theorem failed_dispatch_retryable:
  assumes "hex (transactionId (args ev)) \<notin> processed_transactions s"
    and "is_Exception e"
    and "from_key w (listener_private_key cfg) = Inl e
     \<or> (\<exists>wallet. from_key w (listener_private_key cfg) = Inr wallet \<and>
          (get_transaction_count w wallet = Inl e
         \<or> (\<exists>nonce. get_transaction_count w wallet = Inr nonce \<and>
              (gas_price w = Inl e
             \<or> (\<exists>gp. gas_price w = Inr gp \<and>
                  (build_transaction w
                     (releaseTokens (transactionId (args ev)) (sender (args ev))
                        (token (args ev)) (amount (args ev)))
                     \<lparr>tx_from = wallet, tx_nonce = nonce, tx_gas = 200000, tx_gasPrice = gp\<rparr>
                     = Inl e
                 \<or> (\<exists>tx. build_transaction w
                        (releaseTokens (transactionId (args ev)) (sender (args ev))
                           (token (args ev)) (amount (args ev)))
                        \<lparr>tx_from = wallet, tx_nonce = nonce, tx_gas = 200000, tx_gasPrice = gp\<rparr>
                        = Inr tx
                      \<and> sign_transaction w tx (listener_private_key cfg) = Inl e)))))))"
  shows "fst (dispatch cfg w ev s) = Some (Failed e)
    \<and> processed_transactions (snd (dispatch cfg w ev s)) = processed_transactions s
    \<and> hex (transactionId (args ev)) \<notin> processed_transactions (snd (dispatch cfg w ev s))
    \<and> fst (dispatch cfg w' ev (snd (dispatch cfg w ev s))) \<noteq> Some AlreadyRelayed"
proof -
  let ?s0 = "logger INFO (ProcessingNew (hex (transactionId (args ev)))) s"
  have "from_key w (listener_private_key cfg) = Inl e
     \<or> (\<exists>wallet. from_key w (listener_private_key cfg) = Inr wallet \<and>
          fst (build_and_sign cfg w (args ev) wallet
                 (calls (FromKey (listener_private_key cfg))
                    (logger INFO (PreparingRelease (amount (args ev)) (token (args ev))
                       (sender (args ev)) (hex (transactionId (args ev)))) ?s0))) = Inl e)"
  proof (cases "from_key w (listener_private_key cfg) = Inl e")
    case True
    then show ?thesis by simp
  next
    case False
    with assms(3) obtain wallet
      where k: "from_key w (listener_private_key cfg) = Inr wallet"
        and f: "get_transaction_count w wallet = Inl e
         \<or> (\<exists>nonce. get_transaction_count w wallet = Inr nonce \<and>
              (gas_price w = Inl e
             \<or> (\<exists>gp. gas_price w = Inr gp \<and>
                  (build_transaction w
                     (releaseTokens (transactionId (args ev)) (sender (args ev))
                        (token (args ev)) (amount (args ev)))
                     \<lparr>tx_from = wallet, tx_nonce = nonce, tx_gas = 200000, tx_gasPrice = gp\<rparr>
                     = Inl e
                 \<or> (\<exists>tx. build_transaction w
                        (releaseTokens (transactionId (args ev)) (sender (args ev))
                           (token (args ev)) (amount (args ev)))
                        \<lparr>tx_from = wallet, tx_nonce = nonce, tx_gas = 200000, tx_gasPrice = gp\<rparr>
                        = Inr tx
                      \<and> sign_transaction w tx (listener_private_key cfg) = Inl e)))))"
      by blast
    from build_and_sign_raises [OF f] k show ?thesis by simp
  qed
  then have "fst (simulate_release_tokens cfg w ev ?s0) = Some e"
    by (rule simulate_raises)
  then obtain s1 where sim: "simulate_release_tokens cfg w ev ?s0 = (Some e, s1)"
    by (cases "simulate_release_tokens cfg w ev ?s0") simp
  have pe: "process_event cfg w ev s = (None, logger ERROR (ErrorProcessing ev e) s1)"
    using assms(1,2) sim by (simp add: process_event_def Let_def)
  have p1: "processed_transactions s1 = processed_transactions s"
    using simulate_frame(1) [OF sim] by simp
  let ?s' = "logger ERROR (ErrorProcessing ev e) s1"
  have d: "dispatch cfg w ev s = (Some (Failed e), ?s')"
    using pe by (simp add: dispatch_def)
  have fresh: "hex (transactionId (args ev)) \<notin> processed_transactions ?s'"
    using p1 assms(1) by simp
  obtain r2 s2 where pe2: "process_event cfg w' ev ?s' = (r2, s2)"
    by (cases "process_event cfg w' ev ?s'")
  from pe2 have "fst (dispatch cfg w' ev ?s') \<noteq> Some AlreadyRelayed"
  proof (cases rule: process_event_cases)
    case skipped
    with fresh show ?thesis by simp
  qed (simp_all add: dispatch_def pe2)
  with d p1 fresh show ?thesis by simp
qed

text \<open>
  The witness takes a node on which the signature fails and a node on which the build
  fails.
\<close>

theorem failed_dispatch_retryable_witness:
  "(fst (dispatch example_config unsigning_dest (transfer 0x13 13) initial)
      = Some (Failed (OtherException ''cannot sign''))
    \<and> processed_transactions (snd (dispatch example_config unsigning_dest (transfer 0x13 13) initial))
      = processed_transactions initial
    \<and> hex (transactionId (args (transfer 0x13 13)))
        \<notin> processed_transactions (snd (dispatch example_config unsigning_dest (transfer 0x13 13) initial))
    \<and> fst (dispatch example_config healthy_dest (transfer 0x13 13)
             (snd (dispatch example_config unsigning_dest (transfer 0x13 13) initial)))
      \<noteq> Some AlreadyRelayed)
   \<and> (fst (dispatch example_config unbuilding_dest (transfer 0x13 13) initial)
      = Some (Failed (OtherException ''cannot build''))
    \<and> processed_transactions (snd (dispatch example_config unbuilding_dest (transfer 0x13 13) initial))
      = processed_transactions initial
    \<and> hex (transactionId (args (transfer 0x13 13)))
        \<notin> processed_transactions (snd (dispatch example_config unbuilding_dest (transfer 0x13 13) initial))
    \<and> fst (dispatch example_config healthy_dest (transfer 0x13 13)
             (snd (dispatch example_config unbuilding_dest (transfer 0x13 13) initial)))
      \<noteq> Some AlreadyRelayed)"
proof -
  have a: "hex (transactionId (args (transfer 0x13 13))) \<notin> processed_transactions initial"
    by (simp add: initial_def)
  have s: "is_Exception (OtherException ''cannot sign'')"
    and b: "is_Exception (OtherException ''cannot build'')" by simp_all
  have fs: "from_key unsigning_dest (listener_private_key example_config) = Inr ''0xWallet''"
    "get_transaction_count unsigning_dest ''0xWallet'' = Inr 7"
    "gas_price unsigning_dest = Inr 3"
    "\<And>c p. build_transaction unsigning_dest c p = Inr ''release''"
    "\<And>t k. sign_transaction unsigning_dest t k = Inl (OtherException ''cannot sign'')"
    by (simp_all add: unsigning_dest_def healthy_dest_def)
  have fb: "from_key unbuilding_dest (listener_private_key example_config) = Inr ''0xWallet''"
    "get_transaction_count unbuilding_dest ''0xWallet'' = Inr 7"
    "gas_price unbuilding_dest = Inr 3"
    "\<And>c p. build_transaction unbuilding_dest c p = Inl (OtherException ''cannot build'')"
    by (simp_all add: unbuilding_dest_def healthy_dest_def)
  from failed_dispatch_retryable [where w = unsigning_dest and cfg = example_config
      and w' = healthy_dest, OF a s]
    failed_dispatch_retryable [where w = unbuilding_dest and cfg = example_config
      and w' = healthy_dest, OF a b]
    a
  show ?thesis by (simp add: fs fb)
qed

section \<open>The destination chain id\<close>

lemma build_and_sign_chain_id:
  "build_and_sign cfg w (a\<lparr>destinationChainId := c\<rparr>) wa s = build_and_sign cfg w a wa s"
  by (simp add: build_and_sign_def Let_def split: sum.splits)

lemma simulate_chain_id:
  "simulate_release_tokens cfg w (ev\<lparr>args := (args ev)\<lparr>destinationChainId := c\<rparr>\<rparr>) s =
   simulate_release_tokens cfg w ev s"
  by (simp add: simulate_release_tokens_def build_and_sign_chain_id Let_def
      split: sum.splits prod.splits)

text \<open>
  C10. \<open>destinationChainId\<close> is never read. Two events that differ only in it are
  dispatched alike: the same outcome (with the same exception when it is \<open>Failed\<close>), the
  same calls on the destination node, and with them the same \<open>releaseTokens\<close> action,
  the same set of processed ids and the same watermark. The configuration has no
  destination chain id to compare with.
\<close>

theorem destination_chain_id_ignored:
  "fst (dispatch cfg w (ev\<lparr>args := (args ev)\<lparr>destinationChainId := c\<rparr>\<rparr>) s) =
     fst (dispatch cfg w ev s)
   \<and> dest_calls (snd (dispatch cfg w (ev\<lparr>args := (args ev)\<lparr>destinationChainId := c\<rparr>\<rparr>) s)) =
     dest_calls (snd (dispatch cfg w ev s))
   \<and> processed_transactions
       (snd (dispatch cfg w (ev\<lparr>args := (args ev)\<lparr>destinationChainId := c\<rparr>\<rparr>) s)) =
     processed_transactions (snd (dispatch cfg w ev s))
   \<and> last_processed_block
       (snd (dispatch cfg w (ev\<lparr>args := (args ev)\<lparr>destinationChainId := c\<rparr>\<rparr>) s)) =
     last_processed_block (snd (dispatch cfg w ev s))"
proof -
  let ?ev' = "ev\<lparr>args := (args ev)\<lparr>destinationChainId := c\<rparr>\<rparr>"
  let ?s0 = "logger INFO (ProcessingNew (hex (transactionId (args ev)))) s"
  have id: "transactionId (args ?ev') = transactionId (args ev)" by simp
  obtain r1 s1 where sim: "simulate_release_tokens cfg w ev ?s0 = (r1, s1)"
    by (cases "simulate_release_tokens cfg w ev ?s0")
  then have sim': "simulate_release_tokens cfg w ?ev' ?s0 = (r1, s1)"
    by (simp add: simulate_chain_id)
  show ?thesis
  proof (cases "hex (transactionId (args ev)) \<in> processed_transactions s")
    case True
    then show ?thesis by (simp add: dispatch_def process_event_def)
  next
    case False
    show ?thesis
    proof (cases r1)
      case None
      with False sim sim' show ?thesis by (simp add: dispatch_def process_event_def Let_def)
    next
      case (Some e)
      with False sim sim' show ?thesis by (simp add: dispatch_def process_event_def Let_def)
    qed
  qed
qed

section \<open>One scan\<close>

lemma scan_and_dispatch_scanned:
  assumes "block_number (source W) = Inr H" and "last_processed_block s < H"
    and "get_all_entries (source W) (last_processed_block s + 1) H = Inr evs"
    and "\<And>i. no_signal_dest (dest W i)"
  obtains s3 where
    "process_events cfg (dest W) 0 evs
       (if evs \<noteq> [] then logger INFO (Found (length evs))
          ((logger INFO (Scanning (last_processed_block s + 1) H) s)
             \<lparr>src_queries := src_queries s @ [(last_processed_block s + 1, H)]\<rparr>)
        else logger INFO NoNewEvents
          ((logger INFO (Scanning (last_processed_block s + 1) H) s)
             \<lparr>src_queries := src_queries s @ [(last_processed_block s + 1, H)]\<rparr>)) = (None, s3)"
    and "scan_and_dispatch cfg W s = (None, s3\<lparr>last_processed_block := H\<rparr>)"
proof -
  let ?s2 = "(logger INFO (Scanning (last_processed_block s + 1) H) s)
             \<lparr>src_queries := src_queries s @ [(last_processed_block s + 1, H)]\<rparr>"
  let ?s = "if evs \<noteq> [] then logger INFO (Found (length evs)) ?s2
            else logger INFO NoNewEvents ?s2"
  obtain s3 where pe: "process_events cfg (dest W) 0 evs ?s = (None, s3)"
    using process_events_no_signal [of "dest W" cfg 0 evs ?s, OF assms(4)]
    by (cases "process_events cfg (dest W) 0 evs ?s") simp
  have "scan_and_dispatch cfg W s = (None, s3\<lparr>last_processed_block := H\<rparr>)"
  proof (cases "evs = []")
    case True
    with pe assms(1-3) show ?thesis by (simp add: scan_and_dispatch_def Let_def)
  next
    case False
    with pe assms(1-3) show ?thesis by (simp add: scan_and_dispatch_def Let_def)
  qed
  with pe that show ?thesis by blast
qed

lemma scan_and_dispatch_queries:
  "src_queries (snd (scan_and_dispatch cfg W s)) =
     src_queries s @
       (case block_number (source W) of
          Inl e \<Rightarrow> []
        | Inr H \<Rightarrow> if last_processed_block s < H then [(last_processed_block s + 1, H)] else [])"
proof (cases "block_number (source W)")
  case (Inl e)
  then show ?thesis by (simp add: scan_and_dispatch_def)
next
  case (Inr H)
  show ?thesis
  proof (cases "last_processed_block s < H")
    case False
    with Inr show ?thesis by (simp add: scan_and_dispatch_def)
  next
    case True
    let ?s2 = "(logger INFO (Scanning (last_processed_block s + 1) H) s)
               \<lparr>src_queries := src_queries s @ [(last_processed_block s + 1, H)]\<rparr>"
    show ?thesis
    proof (cases "get_all_entries (source W) (last_processed_block s + 1) H")
      case (Inl e)
      with Inr True show ?thesis by (simp add: scan_and_dispatch_def Let_def)
    next
      case evs: (Inr evs)
      obtain r3 s3 where pe: "process_events cfg (dest W) 0 evs
          (logger INFO (Found (length evs)) ?s2) = (r3, s3)"
        by (cases "process_events cfg (dest W) 0 evs (logger INFO (Found (length evs)) ?s2)")
      have "src_queries s3 = src_queries s @ [(last_processed_block s + 1, H)]"
        using process_events_queries [OF pe] by simp
      with Inr True evs pe show ?thesis
        by (cases r3; cases "evs = []") (simp_all add: scan_and_dispatch_def Let_def)
    qed
  qed
qed

lemma run_cycle_queries:
  "src_queries (snd (run_cycle cfg W s)) = src_queries (snd (scan_and_dispatch cfg W s))"
  by (cases "scan_and_dispatch cfg W s")
     (auto simp: run_cycle_def split: option.splits)

lemma run_cycle_block:
  "last_processed_block (snd (run_cycle cfg W s)) =
   last_processed_block (snd (scan_and_dispatch cfg W s))"
  by (cases "scan_and_dispatch cfg W s")
     (auto simp: run_cycle_def split: option.splits)

text \<open>
  C2, as the script has it. When the head is read, lies beyond the watermark and the
  events of the range are fetched, the iteration sets the watermark to the head whatever
  the dispatches did: \<open>process_event\<close> logs a failure and returns, and the assignment
  follows the loop unconditionally. The next iteration therefore asks the source for
  nothing below the block after that head: the range is not scanned again and a failed
  dispatch is not attempted again. An event whose id the set holds after the iteration
  is answered \<open>AlreadyRelayed\<close> if it is delivered again.
\<close>

theorem watermark_advances_past_failures:
  assumes "block_number (source W) = Inr H" and "last_processed_block s < H"
    and "get_all_entries (source W) (last_processed_block s + 1) H = Inr evs"
    and "\<forall>i. no_signal_dest (dest W i)"
  shows "fst (run_cycle cfg W s) = sleep (poll_interval_seconds cfg) (sleep_signal W)
    \<and> last_processed_block (snd (run_cycle cfg W s)) = H
    \<and> src_queries (snd (run_cycle cfg W' (snd (run_cycle cfg W s)))) =
        src_queries s @ [(last_processed_block s + 1, H)] @
          (case block_number (source W') of
             Inl e \<Rightarrow> []
           | Inr H' \<Rightarrow> if H < H' then [(H + 1, H')] else [])
    \<and> (hex (transactionId (args ev)) \<in> processed_transactions (snd (run_cycle cfg W s)) \<longrightarrow>
        fst (dispatch cfg w ev (snd (run_cycle cfg W s))) = Some AlreadyRelayed)"
proof -
  from assms(4) have ns: "\<And>i. no_signal_dest (dest W i)" by simp
  obtain s3 where sd: "scan_and_dispatch cfg W s = (None, s3\<lparr>last_processed_block := H\<rparr>)"
    using scan_and_dispatch_scanned [OF assms(1-3) ns, of cfg] by blast
  then have rc: "run_cycle cfg W s =
      (sleep (poll_interval_seconds cfg) (sleep_signal W), s3\<lparr>last_processed_block := H\<rparr>)"
    by (simp add: run_cycle_def)
  have q: "src_queries (s3\<lparr>last_processed_block := H\<rparr>) =
      src_queries s @ [(last_processed_block s + 1, H)]"
    using scan_and_dispatch_queries [of cfg W s] sd assms(1,2) by simp
  show ?thesis
    using rc q
    by (simp add: run_cycle_queries scan_and_dispatch_queries dispatch_def process_event_def
        split: sum.splits)
qed

lemma example_no_signal [simp]:
  "no_signal_dest healthy_dest" "no_signal_dest unsigning_dest" "no_signal_dest unreachable_dest"
  by (simp_all add: no_signal_dest_def healthy_dest_def unsigning_dest_def unreachable_dest_def)

lemma example_cycle_fields:
  "block_number (source example_cycle) = Inr 15"
  "get_all_entries (source example_cycle) 11 15 =
     Inr [transfer 0x11 11, transfer 0x13 13, transfer 0x14 14]"
  "\<forall>i. no_signal_dest (dest example_cycle i)"
  "sleep_signal example_cycle = None"
  by (simp_all add: example_cycle_def example_source_def transfer_def)

lemma example_run:
  "run_cycle example_config example_cycle (initial\<lparr>last_processed_block := 10\<rparr>) =
     (None,
      \<lparr>processed_transactions = {''14'', ''11''}, last_processed_block = 15,
       logged =
         [(INFO, Scanning 11 15), (INFO, Found 3),
          (INFO, ProcessingNew ''11''),
          (INFO, PreparingRelease 50 ''0xToken'' ''0xSender'' ''11''),
          (INFO, WouldHaveSent), (INFO, SignedTx ''0x5a''),
          (INFO, SuccessfullyProcessed ''11''),
          (INFO, ProcessingNew ''13''),
          (INFO, PreparingRelease 50 ''0xToken'' ''0xSender'' ''13''),
          (ERROR, FailedBuildSign ''13'' (OtherException ''cannot sign'')),
          (ERROR, ErrorProcessing (transfer 0x13 13) (OtherException ''cannot sign'')),
          (INFO, ProcessingNew ''14''),
          (INFO, PreparingRelease 50 ''0xToken'' ''0xSender'' ''14''),
          (INFO, WouldHaveSent), (INFO, SignedTx ''0x5a''),
          (INFO, SuccessfullyProcessed ''14'')],
       dest_calls =
         [FromKey ''0xKey'', GetTransactionCount ''0xWallet'', GasPrice,
          BuildTransaction (releaseTokens [0x11] ''0xSender'' ''0xToken'' 50)
            \<lparr>tx_from = ''0xWallet'', tx_nonce = 7, tx_gas = 200000, tx_gasPrice = 3\<rparr>,
          SignTransaction ''release'' ''0xKey'',
          FromKey ''0xKey'', GetTransactionCount ''0xWallet'', GasPrice,
          BuildTransaction (releaseTokens [0x13] ''0xSender'' ''0xToken'' 50)
            \<lparr>tx_from = ''0xWallet'', tx_nonce = 7, tx_gas = 200000, tx_gasPrice = 3\<rparr>,
          SignTransaction ''release'' ''0xKey'',
          FromKey ''0xKey'', GetTransactionCount ''0xWallet'', GasPrice,
          BuildTransaction (releaseTokens [0x14] ''0xSender'' ''0xToken'' 50)
            \<lparr>tx_from = ''0xWallet'', tx_nonce = 7, tx_gas = 200000, tx_gasPrice = 3\<rparr>,
          SignTransaction ''release'' ''0xKey''],
       src_queries = [(11, 15)]\<rparr>)"
  by (simp add: run_defs example_defs hex_examples insert_commute)

theorem watermark_advances_past_failures_witness:
  "fst (run_cycle example_config example_cycle (initial\<lparr>last_processed_block := 10\<rparr>)) = None
   \<and> last_processed_block
       (snd (run_cycle example_config example_cycle (initial\<lparr>last_processed_block := 10\<rparr>))) = 15
   \<and> src_queries (snd (run_cycle example_config example_cycle
        (snd (run_cycle example_config example_cycle (initial\<lparr>last_processed_block := 10\<rparr>))))) =
      [(11, 15)]
   \<and> hex (transactionId (args (transfer 0x11 11)))
       \<in> processed_transactions
           (snd (run_cycle example_config example_cycle (initial\<lparr>last_processed_block := 10\<rparr>)))
   \<and> fst (dispatch example_config healthy_dest (transfer 0x11 11)
        (snd (run_cycle example_config example_cycle (initial\<lparr>last_processed_block := 10\<rparr>)))) =
      Some AlreadyRelayed"
proof -
  have m: "hex (transactionId (args (transfer 0x11 11)))
       \<in> processed_transactions
           (snd (run_cycle example_config example_cycle (initial\<lparr>last_processed_block := 10\<rparr>)))"
    by (simp add: example_run hex_examples transfer_def)
  from watermark_advances_past_failures
    [where W = example_cycle and s = "initial\<lparr>last_processed_block := 10\<rparr>" and H = 15
       and evs = "[transfer 0x11 11, transfer 0x13 13, transfer 0x14 14]"
       and cfg = example_config and W' = example_cycle and ev = "transfer 0x11 11"
       and w = healthy_dest]
    example_cycle_fields m
  show ?thesis by (simp add: initial_def sleep_def example_config_def)
qed

lemma run_cycle_idle:
  assumes "block_number (source W) = Inr H" and "H \<le> last_processed_block s"
    and "sleep (poll_interval_seconds cfg) None = None" and "sleep_signal W = None"
  shows "run_cycle cfg W s = (None, s)"
  using assms by (simp add: run_cycle_def scan_and_dispatch_def)

text \<open>
  C2, as stated, fails: in the example the dispatch of the transfer of block 13 fails,
  and the same iteration moves the watermark from 10 to 15; a second iteration against
  the same head asks the source for nothing, so the failed dispatch is never repeated.
\<close>

theorem watermark_held_back_counterexample:
  "outcomes (snd (run_cycle example_config example_cycle (initial\<lparr>last_processed_block := 10\<rparr>))) =
     [(''11'', Relayed), (''13'', Failed (OtherException ''cannot sign'')), (''14'', Relayed)]
   \<and> last_processed_block
       (snd (run_cycle example_config example_cycle (initial\<lparr>last_processed_block := 10\<rparr>))) = 15
   \<and> src_queries (snd (run_cycles example_config [example_cycle, example_cycle]
        (initial\<lparr>last_processed_block := 10\<rparr>))) = [(11, 15)]"
proof -
  let ?r = "run_cycle example_config example_cycle (initial\<lparr>last_processed_block := 10\<rparr>)"
  have a: "fst ?r = None" and b: "last_processed_block (snd ?r) = 15"
    and q: "src_queries (snd ?r) = [(11, 15)]"
    by (simp_all add: example_run)
  have o: "outcomes (snd ?r) =
      [(''11'', Relayed), (''13'', Failed (OtherException ''cannot sign'')), (''14'', Relayed)]"
    by (simp add: example_run outcomes_def map_filter_def hex_examples transfer_def)
  have p: "sleep (poll_interval_seconds example_config) None = None"
    by (simp add: sleep_def example_config_def)
  have c: "run_cycle example_config example_cycle (snd ?r) = (None, snd ?r)"
    using example_cycle_fields(1) _ p example_cycle_fields(4)
    by (rule run_cycle_idle) (simp add: b)
  have "run_cycles example_config [example_cycle, example_cycle]
      (initial\<lparr>last_processed_block := 10\<rparr>) = (None, snd ?r)"
    using a c by (cases ?r) simp
  with o b q show ?thesis by simp
qed

section \<open>The span of a query\<close>

text \<open>
  C5, as stated, fails. Against a source that refuses spans of more than 1000 blocks, with
  the head at block 5000, the iteration asks for the whole span from 1 to 5000; the
  refusal is logged as an unexpected error; and the next iteration asks for the same span
  again. No query is ever split.
\<close>

theorem range_cap_counterexample:
  "get_all_entries (source capped_cycle) 1 5000 = Inl (OtherException ''RangeTooLarge'')
   \<and> run_cycle example_config capped_cycle initial =
       (None, initial\<lparr>logged := [(INFO, Scanning 1 5000),
                                 (ERROR, UnexpectedError (OtherException ''RangeTooLarge''))],
                       src_queries := [(1, 5000)]\<rparr>)
   \<and> src_queries (snd (run_cycles example_config [capped_cycle, capped_cycle] initial)) =
       [(1, 5000), (1, 5000)]"
  by (simp add: run_defs example_defs)

text \<open>
  C5, as the script has it. An iteration creates at most one event filter, and when the
  head lies beyond the watermark the filter spans the whole range from the block after
  the watermark to the head, however long: there is no cap and no splitting. When the
  node refuses the query, the exception is caught in the loop and logged as an error, and
  the watermark stays where it was.
\<close>

theorem one_query_per_cycle:
  "src_queries (snd (run_cycle cfg W s)) =
     src_queries s @
       (case block_number (source W) of
          Inl e \<Rightarrow> []
        | Inr H \<Rightarrow> if last_processed_block s < H then [(last_processed_block s + 1, H)] else [])
   \<and> (block_number (source W) = Inr H \<and> last_processed_block s < H
        \<and> get_all_entries (source W) (last_processed_block s + 1) H = Inl e \<and> is_Exception e \<longrightarrow>
      last_processed_block (snd (run_cycle cfg W s)) = last_processed_block s
      \<and> last (logged (snd (run_cycle cfg W s))) =
          (ERROR, if is_RequestsConnectionError e
                  then RpcConnectionError e (poll_interval_seconds cfg)
                  else UnexpectedError e))"
proof (intro conjI impI)
  show "src_queries (snd (run_cycle cfg W s)) =
     src_queries s @
       (case block_number (source W) of
          Inl e \<Rightarrow> []
        | Inr H \<Rightarrow> if last_processed_block s < H then [(last_processed_block s + 1, H)] else [])"
    by (simp add: run_cycle_queries scan_and_dispatch_queries)
next
  assume a: "block_number (source W) = Inr H \<and> last_processed_block s < H
        \<and> get_all_entries (source W) (last_processed_block s + 1) H = Inl e \<and> is_Exception e"
  then have sd: "scan_and_dispatch cfg W s =
      (Some e, (logger INFO (Scanning (last_processed_block s + 1) H) s)
                 \<lparr>src_queries := src_queries s @ [(last_processed_block s + 1, H)]\<rparr>)"
    by (simp add: scan_and_dispatch_def Let_def)
  from a show "last_processed_block (snd (run_cycle cfg W s)) = last_processed_block s"
    by (simp add: run_cycle_block sd)
  from a show "last (logged (snd (run_cycle cfg W s))) =
          (ERROR, if is_RequestsConnectionError e
                  then RpcConnectionError e (poll_interval_seconds cfg)
                  else UnexpectedError e)"
    by (simp add: run_cycle_def sd)
qed

theorem one_query_per_cycle_witness:
  "block_number (source capped_cycle) = Inr 5000 \<and> last_processed_block initial < 5000
   \<and> get_all_entries (source capped_cycle) (last_processed_block initial + 1) 5000 =
        Inl (OtherException ''RangeTooLarge'')
   \<and> is_Exception (OtherException ''RangeTooLarge'')
   \<and> src_queries (snd (run_cycle example_config capped_cycle initial)) = [(1, 5000)]
   \<and> last_processed_block (snd (run_cycle example_config capped_cycle initial)) = 0
   \<and> last (logged (snd (run_cycle example_config capped_cycle initial))) =
        (ERROR, UnexpectedError (OtherException ''RangeTooLarge''))"
proof -
  have h: "block_number (source capped_cycle) = Inr 5000 \<and> last_processed_block initial < 5000
     \<and> get_all_entries (source capped_cycle) (last_processed_block initial + 1) 5000 =
          Inl (OtherException ''RangeTooLarge'')
     \<and> is_Exception (OtherException ''RangeTooLarge'')"
    by (simp add: capped_cycle_def capped_source_def initial_def)
  from one_query_per_cycle [where cfg = example_config and W = capped_cycle and s = initial
      and H = 5000 and e = "OtherException ''RangeTooLarge''"] h
  show ?thesis by (simp add: initial_def)
qed

section \<open>The order of dispatch\<close>

lemma outcomes_fields [simp]:
  "outcomes (logger l m s) =
     outcomes s @ (case dispatched (l, m) of None \<Rightarrow> [] | Some x \<Rightarrow> [x])"
  "outcomes (calls c s) = outcomes s"
  "outcomes (s\<lparr>processed_transactions := p\<rparr>) = outcomes s"
  "outcomes (s\<lparr>last_processed_block := b\<rparr>) = outcomes s"
  "outcomes (s\<lparr>src_queries := q\<rparr>) = outcomes s"
  by (simp_all add: outcomes_def map_filter_def split: option.splits)

lemma build_and_sign_outcomes:
  "build_and_sign cfg w a wa s = (r, s') \<Longrightarrow> outcomes s' = outcomes s"
  by (auto simp: build_and_sign_def Let_def split: sum.splits)

lemma simulate_outcomes:
  "simulate_release_tokens cfg w ev s = (r, s') \<Longrightarrow> outcomes s' = outcomes s"
  by (auto simp: simulate_release_tokens_def Let_def
      split: sum.splits prod.splits if_splits dest: build_and_sign_outcomes)

lemma process_event_outcomes:
  assumes "no_signal_dest w" and "process_event cfg w ev s = (r, s')"
  shows "map fst (outcomes s') = map fst (outcomes s) @ [hex (transactionId (args ev))]"
  using assms(2)
proof (cases rule: process_event_cases)
  case skipped
  then show ?thesis by simp
next
  case (relayed s1)
  from simulate_outcomes [OF relayed(2)] show ?thesis unfolding relayed(4) by simp
next
  case (failed e s1)
  from simulate_outcomes [OF failed(2)] show ?thesis unfolding failed(5) by simp
next
  case (signalled e s1)
  with simulate_no_signal [OF assms(1) signalled(2)] show ?thesis by simp
qed

lemma process_events_outcomes:
  assumes "\<And>i. no_signal_dest (d i)"
  shows "map fst (outcomes (snd (process_events cfg d i evs s))) =
         map fst (outcomes s) @ map (\<lambda>ev. hex (transactionId (args ev))) evs"
proof (induction evs arbitrary: i s)
  case Nil
  show ?case by simp
next
  case (Cons ev evs)
  obtain s1 where pe: "process_event cfg (d i) ev s = (None, s1)"
    using process_event_no_signal [OF assms, of cfg i ev s]
    by (cases "process_event cfg (d i) ev s") simp
  from process_event_outcomes [OF assms pe] Cons.IH [of "Suc i" s1] pe
  show ?case by simp
qed

text \<open>
  C8. The events a scan returns are dispatched one after the other in the order of the
  returned list, which is the order the node emitted them in: after the iteration, the
  dispatches it has added are those of the events of the list, one for each and in the
  list's order, whatever their outcomes. A failed dispatch does not keep the events
  after it from being dispatched.
\<close>

theorem dispatch_in_scan_order:
  assumes "block_number (source W) = Inr H" and "last_processed_block s < H"
    and "get_all_entries (source W) (last_processed_block s + 1) H = Inr evs"
    and "\<forall>i. no_signal_dest (dest W i)"
  shows "map fst (outcomes (snd (run_cycle cfg W s))) =
         map fst (outcomes s) @ map (\<lambda>ev. hex (transactionId (args ev))) evs"
proof -
  from assms(4) have ns: "\<And>i. no_signal_dest (dest W i)" by simp
  let ?s2 = "(logger INFO (Scanning (last_processed_block s + 1) H) s)
             \<lparr>src_queries := src_queries s @ [(last_processed_block s + 1, H)]\<rparr>"
  let ?s = "if evs \<noteq> [] then logger INFO (Found (length evs)) ?s2
            else logger INFO NoNewEvents ?s2"
  obtain s3 where pe: "process_events cfg (dest W) 0 evs ?s = (None, s3)"
    and sd: "scan_and_dispatch cfg W s = (None, s3\<lparr>last_processed_block := H\<rparr>)"
    using scan_and_dispatch_scanned [OF assms(1-3) ns, of cfg] by blast
  have "map fst (outcomes s3) = map fst (outcomes ?s) @ map (\<lambda>ev. hex (transactionId (args ev))) evs"
    using process_events_outcomes [of "dest W" cfg 0 evs ?s, OF ns] pe by simp
  moreover have "outcomes ?s = outcomes s" by simp
  moreover have "outcomes (snd (run_cycle cfg W s)) = outcomes s3"
    using sd by (simp add: run_cycle_def)
  ultimately show ?thesis by simp
qed

theorem dispatch_in_scan_order_witness:
  "map fst (outcomes (snd (run_cycle example_config example_cycle
      (initial\<lparr>last_processed_block := 10\<rparr>)))) =
     map (\<lambda>ev. hex (transactionId (args ev)))
       [transfer 0x11 11, transfer 0x13 13, transfer 0x14 14]
   \<and> map snd (outcomes (snd (run_cycle example_config example_cycle
      (initial\<lparr>last_processed_block := 10\<rparr>)))) =
     [Relayed, Failed (OtherException ''cannot sign''), Relayed]"
proof -
  have "map snd (outcomes (snd (run_cycle example_config example_cycle
      (initial\<lparr>last_processed_block := 10\<rparr>)))) =
     [Relayed, Failed (OtherException ''cannot sign''), Relayed]"
    by (simp add: example_run outcomes_def map_filter_def)
  with dispatch_in_scan_order [where W = example_cycle
      and s = "initial\<lparr>last_processed_block := 10\<rparr>" and H = 15
      and evs = "[transfer 0x11 11, transfer 0x13 13, transfer 0x14 14]"
      and cfg = example_config]
    example_cycle_fields
  show ?thesis by (simp add: initial_def outcomes_def)
qed

section \<open>Broadcast\<close>

lemma main_never_broadcasts:
  "filter is_broadcast (dest_calls (state_of (main py_int env w Ws))) = []"
proof (rule main_invariant [where P = "\<lambda>x. filter is_broadcast (dest_calls x) = []"])
  show "\<And>cfg w ev s r s'. filter is_broadcast (dest_calls s) = [] \<Longrightarrow>
      process_event cfg w ev s = (r, s') \<Longrightarrow> filter is_broadcast (dest_calls s') = []"
    by (simp add: process_event_frame)
qed (simp_all add: initial_def)

text \<open>
  C6, as stated, fails: no configuration, node or event makes a dispatch broadcast. The
  call of \<open>send_raw_transaction\<close> is commented out in \<open>_simulate_release_tokens\<close>, and
  \<open>BridgeConfig\<close> has no field that could select it.
\<close>

theorem broadcast_option_counterexample:
  "\<not> (\<exists>cfg w ev. \<exists>c \<in> set (dest_calls (snd (process_event cfg w ev initial))). is_broadcast c)"
proof
  assume "\<exists>cfg w ev. \<exists>c \<in> set (dest_calls (snd (process_event cfg w ev initial))). is_broadcast c"
  then obtain cfg w ev c
    where c: "c \<in> set (dest_calls (snd (process_event cfg w ev initial)))" "is_broadcast c"
    by blast
  obtain r s' where pe: "process_event cfg w ev initial = (r, s')"
    by (cases "process_event cfg w ev initial")
  from process_event_frame(3) [OF pe] have "filter is_broadcast (dest_calls s') = []"
    by (simp add: initial_def)
  with c pe show False by (simp add: filter_empty_conv)
qed

text \<open>
  C6, as the script has it. Simulation is hardwired: whatever the environment, the nodes
  and the events, the process never calls \<open>send_raw_transaction\<close>, and a dispatch adds no
  broadcast to the calls made on the destination node.
\<close>

theorem never_broadcasts:
  "filter is_broadcast (dest_calls (state_of (main py_int env w Ws))) = []
   \<and> filter is_broadcast (dest_calls (snd (process_event cfg d ev s))) =
       filter is_broadcast (dest_calls s)"
proof
  show "filter is_broadcast (dest_calls (state_of (main py_int env w Ws))) = []"
    by (rule main_never_broadcasts)
next
  obtain r s' where pe: "process_event cfg d ev s = (r, s')"
    by (cases "process_event cfg d ev s")
  from process_event_frame(3) [OF pe] pe
  show "filter is_broadcast (dest_calls (snd (process_event cfg d ev s))) =
       filter is_broadcast (dest_calls s)"
    by simp
qed

section \<open>Missing configuration\<close>

lemma check_required_missing:
  "v \<in> set vars \<Longrightarrow> missing env v \<Longrightarrow>
   \<exists>u \<in> set vars. missing env u \<and> check_required env vars = Some (ValueError u)"
  by (induction vars) auto

text \<open>
  C7, as stated, fails: with an empty environment the process logs a configuration error
  and ends by falling off the end of the script, which is exit status 0. No \<open>sys.exit\<close>
  and no uncaught exception gives it another status.
\<close>

theorem nonzero_exit_counterexample:
  "main example_int Map.empty example_startup [example_cycle] =
     ExitZero (logger ERROR (ConfigurationError (ValueError ''SOURCE_CHAIN_RPC'')) initial)"
  by (simp add: main_def load_config_from_env_def required_vars_def missing_def
      main_except_def)

text \<open>
  C7, as the script has it. When a required variable is unset or empty, the process logs
  a configuration error naming a missing variable and terminates with exit status 0. It
  has then connected to no node, made no query and no dispatch: the loop was not entered.
\<close>

theorem missing_configuration_exits:
  assumes "v \<in> set required_vars" and "missing env v"
  shows "\<exists>u \<in> set required_vars. missing env u \<and>
           main py_int env w Ws =
             ExitZero (logger ERROR (ConfigurationError (ValueError u)) initial)"
proof -
  from check_required_missing [OF assms] obtain u
    where u: "u \<in> set required_vars" "missing env u"
      "check_required env required_vars = Some (ValueError u)"
    by blast
  then have "main py_int env w Ws =
      ExitZero (logger ERROR (ConfigurationError (ValueError u)) initial)"
    by (simp add: main_def load_config_from_env_def main_except_def)
  with u show ?thesis by blast
qed

theorem missing_configuration_exits_witness:
  "''LISTENER_PRIVATE_KEY'' \<in> set required_vars
   \<and> missing (example_env(''LISTENER_PRIVATE_KEY'' \<mapsto> '''')) ''LISTENER_PRIVATE_KEY''
   \<and> (\<exists>u \<in> set required_vars. missing (example_env(''LISTENER_PRIVATE_KEY'' \<mapsto> '''')) u \<and>
         main example_int (example_env(''LISTENER_PRIVATE_KEY'' \<mapsto> '''')) example_startup
           [example_cycle] =
           ExitZero (logger ERROR (ConfigurationError (ValueError u)) initial))"
proof -
  have a: "''LISTENER_PRIVATE_KEY'' \<in> set required_vars" by (simp add: required_vars_def)
  have b: "missing (example_env(''LISTENER_PRIVATE_KEY'' \<mapsto> '''')) ''LISTENER_PRIVATE_KEY''"
    by (simp add: missing_def)
  from missing_configuration_exits [OF a b] a b show ?thesis by blast
qed

section \<open>What ends the process\<close>







end
